theory Spec2Isabelle
  imports Complex_Main "HOL-Library.Multiset"
begin

section \<open>Data model of the simulation engine\<close>

text \<open>
  The engine is the class \<open>GameEngine\<close>. Its numeric cells are JavaScript numbers; the
  model reads them as real numbers, so infinities, NaN arithmetic and the rounding of
  double-precision arithmetic are outside the model. The rounding to single precision
  that a store into a \<open>Float32Array\<close> performs is written out, as \<open>fround\<close>, for the
  trait arrays in \<open>spawnOrganism\<close>, whose stored values are what the trait ranges bound;
  position, velocity and energy cells hold the unrounded value. The snapshot code does no
  arithmetic on entity cells, so there the cell type is a parameter \<open>'n\<close> and a number
  of a document is stored as it is; the physics is stated for \<open>real\<close> cells.
\<close>

record GameConfig =
  initialPop :: real
  initialFood :: real
  mutationRate :: real
  mutationChance :: real
  baseMetabolism :: real
  startEnergy :: real
  predatorSizeAdvantage :: real
  foodValue :: real
  maxToxicity :: real
  zoneCount :: real
  zoneDensity :: real
  zoneDrift :: real
  zoneSize :: real

record Vector =
  vec_x :: real
  vec_y :: real

record Zone =
  pos :: Vector
  radius :: real
  vel :: Vector

record Camera =
  cam_x :: real
  cam_y :: real
  zoom :: real

text \<open>The persistence document \<open>GameState\<close>, as \<open>importState\<close> may receive it: the
  TypeScript type is not checked at run time. An organism or food tuple is a list of
  cells of whatever length the document gives it. The sections that \<open>importState\<close>
  reads through, namely \<open>world\<close>, \<open>world.flags\<close>, \<open>environment\<close>, \<open>entities\<close> and the
  two entity lists, are optional, \<open>None\<close> standing for a document in which the section is
  absent. The fields that are only copied are present in every document modelled:
  an engine holding \<open>undefined\<close> in place of a number, a flag, its configuration, its
  camera or its zone list is outside the model, as NaN arithmetic is. So are tuples
  that are not arrays.\<close>

record Meta =
  version :: string
  date :: string

record Flags =
  predation :: bool
  zones_flag :: bool
  debug :: bool

record World =
  world_size :: real
  world_simSpeed :: real
  flags :: "Flags option"
  world_camera :: Camera

record Environment =
  env_zones :: "Zone list"

record 'n Entities =
  organisms :: "'n list list option"
  food :: "'n list list option"

record 'n GameState =
  meta :: Meta
  doc_config :: GameConfig
  world :: "World option"
  environment :: "Environment option"
  entities :: "'n Entities option"

text \<open>
  The engine state. Typed arrays are total functions from indices; the loops of the
  source only visit indices below the capacity. \<open>MAX_POP\<close>, \<open>MAX_FOOD\<close> and
  \<open>MAX_GRID_DIM\<close> are the read-only capacity fields of the class (100000, 50000 and
  500 in the source), kept as fields so that statements hold for every capacity. \<open>Math.random\<close> is the sequence
  \<open>random\<close> of values in \<open>[0, 1)\<close> it will return, with \<open>drawn\<close> the number of
  calls made so far. \<open>ctx\<close> tells whether the canvas gave a drawing context, and
  \<open>canvasWidth\<close>, \<open>canvasHeight\<close> are the canvas dimensions.
\<close>

record 'n engine =
  MAX_POP :: nat
  MAX_FOOD :: nat
  MAX_GRID_DIM :: nat
  worldSize :: real
  cellSize :: real
  simSpeed :: real
  debugMode :: bool
  predationActive :: bool
  activeZones :: bool
  paused :: bool
  frameCount :: nat
  camera :: Camera
  followedIndex :: int
  config :: GameConfig
  zones :: "Zone list"
  oX :: "nat \<Rightarrow> 'n"
  oY :: "nat \<Rightarrow> 'n"
  oVX :: "nat \<Rightarrow> 'n"
  oVY :: "nat \<Rightarrow> 'n"
  oEnergy :: "nat \<Rightarrow> 'n"
  gSpeed :: "nat \<Rightarrow> 'n"
  gSize :: "nat \<Rightarrow> 'n"
  gSense :: "nat \<Rightarrow> 'n"
  gRepro :: "nat \<Rightarrow> 'n"
  gWander :: "nat \<Rightarrow> 'n"
  gDefense :: "nat \<Rightarrow> 'n"
  gMeta :: "nat \<Rightarrow> 'n"
  gHue :: "nat \<Rightarrow> 'n"
  oActive :: "nat \<Rightarrow> bool"
  oFree :: "nat \<Rightarrow> nat"
  oFreePtr :: int
  activeCount :: int
  fX :: "nat \<Rightarrow> 'n"
  fY :: "nat \<Rightarrow> 'n"
  fActive :: "nat \<Rightarrow> bool"
  fFree :: "nat \<Rightarrow> nat"
  fFreePtr :: int
  foodCount :: int
  gridHead :: "nat \<Rightarrow> int"
  gridNext :: "nat \<Rightarrow> int"
  foodGridHead :: "nat \<Rightarrow> int"
  foodGridNext :: "nat \<Rightarrow> int"
  gridCols :: int
  gridRows :: int
  ctx :: bool
  canvasWidth :: real
  canvasHeight :: real
  random :: "nat \<Rightarrow> real"
  drawn :: nat

section \<open>Helpers\<close>

definition Math_random :: "'n engine \<Rightarrow> real \<times> 'n engine" where
  "Math_random s = (random s (drawn s), s\<lparr>drawn := Suc (drawn s)\<rparr>)"

text \<open>JavaScript's \<open>%\<close> on numbers: the remainder of the division truncated toward
  zero, with the sign of the dividend.\<close>

definition js_rem :: "real \<Rightarrow> real \<Rightarrow> real" where
  "js_rem a b = a - b * of_int (if 0 \<le> a / b then \<lfloor>a / b\<rfloor> else \<lceil>a / b\<rceil>)"

text \<open>The value a \<open>Float32Array\<close> cell holds after a number is stored into it: the
  nearest single-precision number, ties going to the even significand. A
  single-precision number is an integer multiple of \<open>2 ^ (e - 23)\<close>, where \<open>e\<close> is the
  binary exponent of the number, not below \<open>-126\<close>. Numbers beyond the largest
  single-precision number, which the array holds as infinities, are outside the model.\<close>

definition roundEven :: "real \<Rightarrow> int" where
  "roundEven y =
     (let f = \<lfloor>y\<rfloor>
      in if y - of_int f < 1 / 2 then f
         else if 1 / 2 < y - of_int f then f + 1
         else if even f then f else f + 1)"

definition exponent32 :: "real \<Rightarrow> int" where
  "exponent32 x = max (- 126) \<lfloor>log 2 \<bar>x\<bar>\<rfloor>"

definition ulp32 :: "real \<Rightarrow> real" where
  "ulp32 x = 2 powi (exponent32 x - 23)"

definition fround :: "real \<Rightarrow> real" where
  "fround x = (if x = 0 then 0 else ulp32 x * of_int (roundEven (x / ulp32 x)))"

definition getWrappedDistSq :: "real engine \<Rightarrow> real \<Rightarrow> real \<Rightarrow> real \<Rightarrow> real \<Rightarrow> real" where
  "getWrappedDistSq s x1 y1 x2 y2 =
     (let dx = \<bar>x1 - x2\<bar>; dy = \<bar>y1 - y2\<bar>;
          dx = (if dx > worldSize s / 2 then worldSize s - dx else dx);
          dy = (if dy > worldSize s / 2 then worldSize s - dy else dy)
      in dx * dx + dy * dy)"

definition getWrappedDist :: "real engine \<Rightarrow> real \<Rightarrow> real \<Rightarrow> real \<Rightarrow> real \<Rightarrow> real" where
  "getWrappedDist s x1 y1 x2 y2 = sqrt (getWrappedDistSq s x1 y1 x2 y2)"

section \<open>Entity stores: spawn and kill\<close>

text \<open>One mutation gate of \<open>spawnOrganism\<close>:
  \<^verbatim>\<open>if (Math.random() < chance) this.gT[idx] += (Math.random() - 0.5) * scale\<close>.
  The second draw happens only when the gate opens. \<open>upd\<close> is the update function of
  the trait array, a \<open>Float32Array\<close>: the sum is stored rounded.\<close>

definition mutateTrait ::
  "(((nat \<Rightarrow> real) \<Rightarrow> nat \<Rightarrow> real) \<Rightarrow> real engine \<Rightarrow> real engine) \<Rightarrow> nat \<Rightarrow> real \<Rightarrow> real
     \<Rightarrow> real engine \<Rightarrow> real engine" where
  "mutateTrait upd idx chance scale s =
     (case Math_random s of (g, s1) \<Rightarrow>
        if g < chance
        then (case Math_random s1 of (m, s2) \<Rightarrow> upd (\<lambda>a. a(idx := fround (a idx + (m - 0.5) * scale))) s2)
        else s1)"

definition clampTrait ::
  "(((nat \<Rightarrow> real) \<Rightarrow> nat \<Rightarrow> real) \<Rightarrow> real engine \<Rightarrow> real engine) \<Rightarrow> nat \<Rightarrow> real \<Rightarrow> real
     \<Rightarrow> real engine \<Rightarrow> real engine" where
  "clampTrait upd idx lo hi s = upd (\<lambda>a. a(idx := fround (max lo (min hi (a idx))))) s"

text \<open>The branch \<open>parentIdx === -1\<close>: traits drawn from their initial sub-ranges.\<close>

definition randomTraits :: "nat \<Rightarrow> real engine \<Rightarrow> real engine" where
  "randomTraits idx s =
     (case Math_random s of (r1, s) \<Rightarrow> case Math_random s of (r2, s) \<Rightarrow>
      case Math_random s of (r3, s) \<Rightarrow> case Math_random s of (r4, s) \<Rightarrow>
      case Math_random s of (r5, s) \<Rightarrow> case Math_random s of (r6, s) \<Rightarrow>
      case Math_random s of (r7, s) \<Rightarrow>
        s\<lparr>gSpeed := (gSpeed s)(idx := fround (r1 * 2 + 1.5)),
          gSize := (gSize s)(idx := fround (r2 * 8 + 5)),
          gSense := (gSense s)(idx := fround (r3 * 80 + 40)),
          gRepro := (gRepro s)(idx := fround (r4 * 1900 + 100)),
          gWander := (gWander s)(idx := fround (r5 * 0.5 + 0.1)),
          gDefense := (gDefense s)(idx := fround (r6 * 0.1)),
          gMeta := (gMeta s)(idx := fround 1.0),
          gHue := (gHue s)(idx := fround (r7 * 360))\<rparr>)"

text \<open>The other branch: copy the parent's traits, pass each through its mutation gate,
  then clamp seven of them to their ranges and wrap the hue.\<close>

definition copyTraits :: "nat \<Rightarrow> nat \<Rightarrow> real engine \<Rightarrow> real engine" where
  "copyTraits idx parentIdx s =
     s\<lparr>gSpeed := (gSpeed s)(idx := gSpeed s parentIdx),
       gSize := (gSize s)(idx := gSize s parentIdx),
       gSense := (gSense s)(idx := gSense s parentIdx),
       gRepro := (gRepro s)(idx := gRepro s parentIdx),
       gWander := (gWander s)(idx := gWander s parentIdx),
       gDefense := (gDefense s)(idx := gDefense s parentIdx),
       gMeta := (gMeta s)(idx := gMeta s parentIdx),
       gHue := (gHue s)(idx := gHue s parentIdx)\<rparr>"

definition mutateTraits :: "nat \<Rightarrow> real \<Rightarrow> real \<Rightarrow> real engine \<Rightarrow> real engine" where
  "mutateTraits idx chance rate s =
     (let s = mutateTrait gSpeed_update idx chance (rate * 2) s;
          s = mutateTrait gSize_update idx chance (rate * 6) s;
          s = mutateTrait gSense_update idx chance (rate * 30) s;
          s = mutateTrait gRepro_update idx chance (400 * rate) s;
          s = mutateTrait gWander_update idx chance 0.2 s;
          s = mutateTrait gDefense_update idx chance 0.3 s;
          s = mutateTrait gMeta_update idx chance (rate * 0.5) s
      in mutateTrait gHue_update idx chance 30 s)"

definition clampTraits :: "nat \<Rightarrow> real engine \<Rightarrow> real engine" where
  "clampTraits idx s =
     (let s = clampTrait gSpeed_update idx 0.5 8 s;
          s = clampTrait gSize_update idx 4 30 s;
          s = clampTrait gSense_update idx 20 300 s;
          s = clampTrait gRepro_update idx 100 2500 s;
          s = clampTrait gWander_update idx 0.05 2 s;
          s = clampTrait gDefense_update idx 0 1 s;
          s = clampTrait gMeta_update idx 0.5 3.0 s
      in s\<lparr>gHue := (gHue s)(idx := fround (js_rem (gHue s idx + 360) 360))\<rparr>)"

definition inheritTraits :: "nat \<Rightarrow> nat \<Rightarrow> real engine \<Rightarrow> real engine" where
  "inheritTraits idx parentIdx s =
     clampTraits idx
       (mutateTraits idx (mutationChance (config s)) (mutationRate (config s))
          (copyTraits idx parentIdx s))"

text \<open>\<open>spawnOrganism(x, y, parentIdx = -1)\<close> returns the new index, or the sentinel
  \<open>-1\<close> when the free list is empty. \<open>allocOrganism\<close> is the pop of the free list
  with the activation, \<open>initOrganism\<close> the assignments of position, velocity and
  traits; the starting energy comes last.\<close>

definition allocOrganism :: "real engine \<Rightarrow> nat \<times> real engine" where
  "allocOrganism s =
     (let idx = oFree s (nat (oFreePtr s))
      in (idx, s\<lparr>oFreePtr := oFreePtr s - 1,
                 oActive := (oActive s)(idx := True),
                 activeCount := activeCount s + 1\<rparr>))"

definition initOrganism :: "real \<Rightarrow> real \<Rightarrow> int \<Rightarrow> nat \<Rightarrow> real engine \<Rightarrow> real engine" where
  "initOrganism x y parentIdx idx s =
     (let s = s\<lparr>oX := (oX s)(idx := x), oY := (oY s)(idx := y)\<rparr> in
      case Math_random s of (r1, s) \<Rightarrow>
      case Math_random s of (r2, s) \<Rightarrow>
      let s = s\<lparr>oVX := (oVX s)(idx := r1 - 0.5), oVY := (oVY s)(idx := r2 - 0.5)\<rparr>
      in if parentIdx = - 1 then randomTraits idx s
         else inheritTraits idx (nat parentIdx) s)"

definition spawnOrganism :: "real \<Rightarrow> real \<Rightarrow> int \<Rightarrow> real engine \<Rightarrow> int \<times> real engine" where
  "spawnOrganism x y parentIdx s =
     (if oFreePtr s < 0 then (- 1, s)
      else case allocOrganism s of (idx, s) \<Rightarrow>
        let s = initOrganism x y parentIdx idx s
        in (int idx, s\<lparr>oEnergy := (oEnergy s)(idx := gRepro s idx * 0.5)\<rparr>))"

text \<open>\<open>killOrganism\<close>. When the killed organism is the followed one, the camera
  target moves to the nearest living organism (\<open>-1\<close> if there is none); \<open>None\<close> is
  the initial \<open>Infinity\<close> of the search. The notification callback is outside the
  engine.\<close>

definition nearestLiving :: "nat \<Rightarrow> real engine \<Rightarrow> int" where
  "nearestLiving idx s =
     snd (fold (\<lambda>i (bestDist, bestIdx).
            if i \<noteq> idx \<and> oActive s i
            then (let dSq = getWrappedDistSq s (oX s idx) (oY s idx) (oX s i) (oY s i)
                  in if (case bestDist of None \<Rightarrow> True | Some b \<Rightarrow> dSq < b)
                     then (Some dSq, int i) else (bestDist, bestIdx))
            else (bestDist, bestIdx))
          [0..<MAX_POP s] (None, - 1))"

definition killOrganism :: "nat \<Rightarrow> real engine \<Rightarrow> real engine" where
  "killOrganism idx s =
     (let s = (if int idx = followedIndex s then s\<lparr>followedIndex := nearestLiving idx s\<rparr> else s)
      in s\<lparr>oActive := (oActive s)(idx := False),
           oFree := (oFree s)(nat (oFreePtr s + 1) := idx),
           oFreePtr := oFreePtr s + 1,
           activeCount := activeCount s - 1\<rparr>)"

definition spawnFood :: "'n \<Rightarrow> 'n \<Rightarrow> 'n engine \<Rightarrow> int \<times> 'n engine" where
  "spawnFood x y s =
     (if fFreePtr s < 0 then (- 1, s)
      else let idx = fFree s (nat (fFreePtr s))
           in (int idx, s\<lparr>fFreePtr := fFreePtr s - 1,
                          fActive := (fActive s)(idx := True),
                          fX := (fX s)(idx := x),
                          fY := (fY s)(idx := y),
                          foodCount := foodCount s + 1\<rparr>))"

definition killFood :: "nat \<Rightarrow> 'n engine \<Rightarrow> 'n engine" where
  "killFood idx s =
     s\<lparr>fActive := (fActive s)(idx := False),
       fFree := (fFree s)(nat (fFreePtr s + 1) := idx),
       fFreePtr := fFreePtr s + 1,
       foodCount := foodCount s - 1\<rparr>"

text \<open>The reset block shared by \<open>init\<close> and \<open>importState\<close>: both counters to zero,
  both free lists refilled in descending order, every active flag cleared.\<close>

definition resetStores :: "'n engine \<Rightarrow> 'n engine" where
  "resetStores s =
     (let s = s\<lparr>activeCount := 0, foodCount := 0, oFreePtr := int (MAX_POP s) - 1\<rparr>;
          s = fold (\<lambda>i s. s\<lparr>oFree := (oFree s)(i := MAX_POP s - 1 - i),
                             oActive := (oActive s)(i := False)\<rparr>) [0..<MAX_POP s] s;
          s = s\<lparr>fFreePtr := int (MAX_FOOD s) - 1\<rparr>
      in fold (\<lambda>i s. s\<lparr>fFree := (fFree s)(i := MAX_FOOD s - 1 - i),
                         fActive := (fActive s)(i := False)\<rparr>) [0..<MAX_FOOD s] s)"

section \<open>World geometry, camera and zones\<close>

text \<open>The wrap idiom of the source, written there for each coordinate as
  \<^verbatim>\<open>if (v < 0) v += this.worldSize; if (v >= this.worldSize) v -= this.worldSize;\<close>\<close>

definition wrapCoord :: "real \<Rightarrow> real \<Rightarrow> real" where
  "wrapCoord w v = (let v = (if v < 0 then v + w else v) in if v \<ge> w then v - w else v)"

definition clampCamera :: "'n engine \<Rightarrow> 'n engine" where
  "clampCamera s =
     (if \<not> ctx s then s
      else let viewW = canvasWidth s / zoom (camera s);
               viewH = canvasHeight s / zoom (camera s);
               s = (if viewW \<ge> worldSize s
                    then s\<lparr>camera := (camera s)\<lparr>cam_x := - (viewW - worldSize s) / 2\<rparr>\<rparr>
                    else s\<lparr>camera := (camera s)\<lparr>cam_x :=
                            max 0 (min (cam_x (camera s)) (worldSize s - viewW))\<rparr>\<rparr>)
           in (if viewH \<ge> worldSize s
               then s\<lparr>camera := (camera s)\<lparr>cam_y := - (viewH - worldSize s) / 2\<rparr>\<rparr>
               else s\<lparr>camera := (camera s)\<lparr>cam_y :=
                       max 0 (min (cam_y (camera s)) (worldSize s - viewH))\<rparr>\<rparr>))"

text \<open>The local constant \<open>targetZoneCount\<close>, computed by the same expression in
  \<open>init\<close> and in \<open>updateEnvironment\<close>:
  \<^verbatim>\<open>Math.ceil(this.config.zoneDensity * (this.worldSize / 3000))\<close>.\<close>

definition targetZoneCount :: "'n engine \<Rightarrow> int" where
  "targetZoneCount s = \<lceil>zoneDensity (config s) * (worldSize s / 3000)\<rceil>"

text \<open>The zone literal pushed by \<open>init\<close> and \<open>updateEnvironment\<close>; its four
  random draws are made in the order of the literal's fields.\<close>

definition pushZone :: "'n engine \<Rightarrow> 'n engine" where
  "pushZone s =
     (case Math_random s of (r1, s) \<Rightarrow> case Math_random s of (r2, s) \<Rightarrow>
      case Math_random s of (r3, s) \<Rightarrow> case Math_random s of (r4, s) \<Rightarrow>
        s\<lparr>zones := zones s @
            [\<lparr>pos = \<lparr>vec_x = r1 * worldSize s, vec_y = r2 * worldSize s\<rparr>,
              radius = zoneSize (config s),
              vel = \<lparr>vec_x = (r3 - 0.5) * zoneDrift (config s),
                     vec_y = (r4 - 0.5) * zoneDrift (config s)\<rparr>\<rparr>]\<rparr>)"

text \<open>One zone of the drift loop of \<open>updateEnvironment\<close>: advance, wrap, and with
  probability 0.05 perturb the drift and clamp it to \<open>[-zoneDrift, zoneDrift]\<close>.\<close>

definition driftZone :: "Zone \<Rightarrow> 'n engine \<Rightarrow> Zone \<times> 'n engine" where
  "driftZone z s =
     (let px = wrapCoord (worldSize s) (vec_x (pos z) + vec_x (vel z));
          py = wrapCoord (worldSize s) (vec_y (pos z) + vec_y (vel z));
          z = z\<lparr>pos := \<lparr>vec_x = px, vec_y = py\<rparr>\<rparr>;
          d = zoneDrift (config s)
      in case Math_random s of (g, s) \<Rightarrow>
         if g < 0.05
         then (case Math_random s of (r1, s) \<Rightarrow> case Math_random s of (r2, s) \<Rightarrow>
                 (z\<lparr>vel := \<lparr>vec_x = max (- d) (min d (vec_x (vel z) + (r1 - 0.5) * 0.1)),
                             vec_y = max (- d) (min d (vec_y (vel z) + (r2 - 0.5) * 0.1))\<rparr>\<rparr>, s))
         else (z, s))"

fun driftZones :: "Zone list \<Rightarrow> 'n engine \<Rightarrow> Zone list \<times> 'n engine" where
  "driftZones [] s = ([], s)"
| "driftZones (z # zs) s =
     (case driftZone z s of (z', s) \<Rightarrow>
      case driftZones zs s of (zs', s) \<Rightarrow> (z' # zs', s))"

definition updateEnvironment :: "'n engine \<Rightarrow> 'n engine" where
  "updateEnvironment s =
     (if activeZones s
      then let s = (if int (length (zones s)) < targetZoneCount s then pushZone s else s)
           in case driftZones (zones s) s of (zs, s) \<Rightarrow> s\<lparr>zones := zs\<rparr>
      else s\<lparr>zones := []\<rparr>)"

text \<open>\<open>getBiasedSpawnPos\<close>: inside a random zone with probability 0.8 when zones are
  on and there is one, uniform over the world otherwise. The conjunction of the source
  short-cuts, so the gate's draw is made only when zones are on and the list is not
  empty.\<close>

definition getBiasedSpawnPos :: "'n engine \<Rightarrow> (real \<times> real) \<times> 'n engine" where
  "getBiasedSpawnPos s =
     (let uniform = (\<lambda>s. case Math_random s of (r1, s) \<Rightarrow> case Math_random s of (r2, s) \<Rightarrow>
                          ((r1 * worldSize s, r2 * worldSize s), s))
      in if activeZones s \<and> length (zones s) > 0
         then (case Math_random s of (g, s) \<Rightarrow>
                 if g < 0.8
                 then (case Math_random s of (k, s) \<Rightarrow>
                       case Math_random s of (q, s) \<Rightarrow>
                       case Math_random s of (a, s) \<Rightarrow>
                         let zone = zones s ! nat \<lfloor>k * real (length (zones s))\<rfloor>;
                             r = radius zone * sqrt q;
                             theta = a * 2 * pi;
                             x = vec_x (pos zone) + r * cos theta;
                             y = vec_y (pos zone) + r * sin theta
                         in ((wrapCoord (worldSize s) x, wrapCoord (worldSize s) y), s))
                 else uniform s)
         else uniform s)"

definition spawnRandomFoodStep :: "real engine \<Rightarrow> real engine" where
  "spawnRandomFoodStep s = (case getBiasedSpawnPos s of ((x, y), s) \<Rightarrow> snd (spawnFood x y s))"

text \<open>A counting loop \<^verbatim>\<open>for (let i = 0; i < amount; i++)\<close> over a number runs
  \<open>\<lceil>amount\<rceil>\<close> times, and not at all when the amount is not positive.\<close>

definition loopCount :: "real \<Rightarrow> nat" where
  "loopCount amount = nat \<lceil>amount\<rceil>"

definition spawnRandomFood :: "real \<Rightarrow> real engine \<Rightarrow> real engine" where
  "spawnRandomFood amount s = (spawnRandomFoodStep ^^ loopCount amount) s"

definition spawnRandomOrganism :: "real engine \<Rightarrow> real engine" where
  "spawnRandomOrganism s =
     (case Math_random s of (r1, s) \<Rightarrow> case Math_random s of (r2, s) \<Rightarrow>
        snd (spawnOrganism (r1 * worldSize s) (r2 * worldSize s) (- 1) s))"

definition init :: "real engine \<Rightarrow> real engine" where
  "init s =
     (let s = resetStores s;
          s = s\<lparr>zones := []\<rparr>;
          s = (pushZone ^^ nat (targetZoneCount s)) s;
          s = (spawnRandomOrganism ^^ loopCount (initialPop (config s))) s;
          s = spawnRandomFood (initialFood (config s)) s
      in if ctx s
         then clampCamera
                (s\<lparr>camera := (camera s)\<lparr>
                     cam_x := worldSize s / 2 - (canvasWidth s / zoom (camera s)) / 2,
                     cam_y := worldSize s / 2 - (canvasHeight s / zoom (camera s)) / 2\<rparr>\<rparr>)
         else s)"

section \<open>The spatial grid\<close>

text \<open>JavaScript's \<open>%\<close> on integers (\<open>None\<close> for the NaN of a zero divisor), and the
  cell-coordinate wrap \<^verbatim>\<open>if (c < 0) c += n; if (c >= n) c %= n;\<close>\<close>

definition js_irem :: "int \<Rightarrow> int \<Rightarrow> int option" where
  "js_irem a b = (if b = 0 then None else Some (sgn a * (\<bar>a\<bar> mod \<bar>b\<bar>)))"

definition wrapCell :: "int \<Rightarrow> int \<Rightarrow> int option" where
  "wrapCell n c = (let c = (if c < 0 then c + n else c) in if c \<ge> n then js_irem c n else Some c)"

text \<open>The cell index \<^verbatim>\<open>cy * gridCols + cx\<close> of a position, as \<open>updateGrid\<close> and the
  interaction step compute it.\<close>

definition cellIndex :: "real engine \<Rightarrow> real \<Rightarrow> real \<Rightarrow> int option" where
  "cellIndex s px py =
     (case wrapCell (gridCols s) \<lfloor>px / cellSize s\<rfloor> of
        None \<Rightarrow> None
      | Some cx \<Rightarrow>
          (case wrapCell (gridRows s) \<lfloor>py / cellSize s\<rfloor> of
             None \<Rightarrow> None
           | Some cy \<Rightarrow> Some (cy * gridCols s + cx)))"

text \<open>The head arrays have \<open>MAX_GRID_DIM * MAX_GRID_DIM\<close> cells. An index that is NaN
  or outside the array reads \<open>undefined\<close>, and a write there is ignored.\<close>

definition validCell :: "real engine \<Rightarrow> int option \<Rightarrow> nat option" where
  "validCell s c =
     (case c of
        None \<Rightarrow> None
      | Some k \<Rightarrow> if 0 \<le> k \<and> k < int (MAX_GRID_DIM s * MAX_GRID_DIM s) then Some (nat k) else None)"

text \<open>\<open>updateGrid\<close>: set the dimensions, clear the used heads, then push every active
  organism and every active food item on the list of its cell. Reading the head of a
  cell outside the array gives \<open>undefined\<close>, which the \<open>Int32Array\<close> of successors
  stores as 0.\<close>

definition insertOrganism :: "nat \<Rightarrow> real engine \<Rightarrow> real engine" where
  "insertOrganism i s =
     (if oActive s i
      then (case validCell s (cellIndex s (oX s i) (oY s i)) of
              None \<Rightarrow> s\<lparr>gridNext := (gridNext s)(i := 0)\<rparr>
            | Some c \<Rightarrow> s\<lparr>gridNext := (gridNext s)(i := gridHead s c),
                         gridHead := (gridHead s)(c := int i)\<rparr>)
      else s)"

definition insertFood :: "nat \<Rightarrow> real engine \<Rightarrow> real engine" where
  "insertFood i s =
     (if fActive s i
      then (case validCell s (cellIndex s (fX s i) (fY s i)) of
              None \<Rightarrow> s\<lparr>foodGridNext := (foodGridNext s)(i := 0)\<rparr>
            | Some c \<Rightarrow> s\<lparr>foodGridNext := (foodGridNext s)(i := foodGridHead s c),
                         foodGridHead := (foodGridHead s)(c := int i)\<rparr>)
      else s)"

definition updateGrid :: "real engine \<Rightarrow> real engine" where
  "updateGrid s =
     (let s = s\<lparr>gridCols := \<lceil>worldSize s / cellSize s\<rceil>, gridRows := \<lceil>worldSize s / cellSize s\<rceil>\<rparr>;
          used = (\<lambda>k. int k < gridCols s * gridRows s \<and> k < MAX_GRID_DIM s * MAX_GRID_DIM s);
          s = s\<lparr>gridHead := (\<lambda>k. if used k then - 1 else gridHead s k),
                foodGridHead := (\<lambda>k. if used k then - 1 else foodGridHead s k)\<rparr>;
          s = fold insertOrganism [0..<MAX_POP s] s
      in fold insertFood [0..<MAX_FOOD s] s)"

section \<open>The behavior step\<close>

text \<open>The body of the loop of \<open>physicsStep\<close> for the organism \<open>i\<close>, in the order of the
  source. Steps 1 and 2: cap the velocity at four times the metabolism, then drain the
  energy by the costs (the speed cost is that of the speed before the cap) and by the
  damage of every zone that contains the organism.\<close>

definition getWrappedVector :: "real engine \<Rightarrow> real \<Rightarrow> real \<Rightarrow> real \<Rightarrow> real \<Rightarrow> real \<times> real" where
  "getWrappedVector s fromX fromY toX toY =
     (let dx = toX - fromX; dy = toY - fromY;
          dx = (if dx > worldSize s / 2 then dx - worldSize s
                else if dx < - worldSize s / 2 then dx + worldSize s else dx);
          dy = (if dy > worldSize s / 2 then dy - worldSize s
                else if dy < - worldSize s / 2 then dy + worldSize s else dy)
      in (dx, dy))"

definition zoneDamage :: "nat \<Rightarrow> Zone \<Rightarrow> real engine \<Rightarrow> real engine" where
  "zoneDamage i z s =
     (let dist = getWrappedDist s (oX s i) (oY s i) (vec_x (pos z)) (vec_y (pos z))
      in if dist < radius z
         then let intensity = 1.0 - dist / radius z;
                  damage = max 0 (intensity * maxToxicity (config s) - gDefense s i)
              in s\<lparr>oEnergy := (oEnergy s)(i := oEnergy s i - damage)\<rparr>
         else s)"

definition metabolize :: "nat \<Rightarrow> real engine \<Rightarrow> real engine" where
  "metabolize i s =
     (let speedMag = sqrt (oVX s i * oVX s i + oVY s i * oVY s i);
          metabolicSpeedLimit = gMeta s i * 4.0;
          s = (if speedMag > metabolicSpeedLimit
               then let scale = metabolicSpeedLimit / speedMag
                    in s\<lparr>oVX := (oVX s)(i := oVX s i * scale), oVY := (oVY s)(i := oVY s i * scale)\<rparr>
               else s);
          baseCost = baseMetabolism (config s) * gMeta s i;
          speedCost = speedMag ^ 3 * 0.02;
          sizeCost = gSize s i ^ 3 * 0.0001;
          senseCost = gSense s i * 0.0001;
          defenseCost = gDefense s i * 0.08;
          s = s\<lparr>oEnergy := (oEnergy s)(i :=
                 oEnergy s i - (baseCost + speedCost + sizeCost + senseCost + defenseCost))\<rparr>
      in if activeZones s then fold (zoneDamage i) (zones s) s else s)"

text \<open>Step 4, sensing. \<open>bestFood\<close> is a food handle, \<open>-2\<close> for a smaller organism, \<open>-1\<close>
  for nothing; the distances start at \<open>Infinity\<close>, which is \<open>None\<close>. The scans follow the
  cell lists of the nine cells around the organism and change nothing in the engine.\<close>

record Sensed =
  bestFood :: int
  bestFoodDist :: "real option"
  bestPred :: int
  bestPredDist :: "real option"

definition closer :: "real \<Rightarrow> real option \<Rightarrow> bool" where
  "closer d best = (case best of None \<Rightarrow> True | Some b \<Rightarrow> d < b)"

definition senseFoodItem :: "nat \<Rightarrow> real \<Rightarrow> nat \<Rightarrow> real engine \<Rightarrow> Sensed \<Rightarrow> Sensed" where
  "senseFoodItem i senseSq fIdx s b =
     (if fActive s fIdx
      then let dSq = getWrappedDistSq s (oX s i) (oY s i) (fX s fIdx) (fY s fIdx)
           in if dSq < senseSq \<and> closer dSq (bestFoodDist b)
              then b\<lparr>bestFoodDist := Some dSq, bestFood := int fIdx\<rparr>
              else b
      else b)"

partial_function (option) senseFoodLoop ::
  "nat \<Rightarrow> real \<Rightarrow> int \<Rightarrow> real engine \<Rightarrow> Sensed \<Rightarrow> Sensed option" where
  "senseFoodLoop i senseSq fIdx s b =
     (if fIdx = - 1 then Some b
      else if fIdx < 0 \<or> fIdx \<ge> int (MAX_FOOD s) then None
      else senseFoodLoop i senseSq (foodGridNext s (nat fIdx)) s
             (senseFoodItem i senseSq (nat fIdx) s b))"

definition senseOrganism :: "nat \<Rightarrow> real \<Rightarrow> nat \<Rightarrow> real engine \<Rightarrow> Sensed \<Rightarrow> Sensed" where
  "senseOrganism i senseSq oIdx s b =
     (if oIdx \<noteq> i \<and> oActive s oIdx
      then let dSq = getWrappedDistSq s (oX s i) (oY s i) (oX s oIdx) (oY s oIdx)
           in if dSq < senseSq
              then if gSize s oIdx > gSize s i * predatorSizeAdvantage (config s)
                   then (if closer dSq (bestPredDist b)
                         then b\<lparr>bestPredDist := Some dSq, bestPred := int oIdx\<rparr> else b)
                   else if gSize s i > gSize s oIdx * predatorSizeAdvantage (config s)
                   then (if closer dSq (bestFoodDist b)
                         then b\<lparr>bestFoodDist := Some dSq, bestFood := - 2\<rparr> else b)
                   else b
              else b
      else b)"

partial_function (option) senseOrganismLoop ::
  "nat \<Rightarrow> real \<Rightarrow> int \<Rightarrow> real engine \<Rightarrow> Sensed \<Rightarrow> Sensed option" where
  "senseOrganismLoop i senseSq oIdx s b =
     (if oIdx = - 1 then Some b
      else if oIdx < 0 \<or> oIdx \<ge> int (MAX_POP s) then None
      else senseOrganismLoop i senseSq (gridNext s (nat oIdx)) s
             (senseOrganism i senseSq (nat oIdx) s b))"

definition senseCell :: "nat \<Rightarrow> real \<Rightarrow> int \<Rightarrow> int \<Rightarrow> int \<times> int \<Rightarrow> real engine \<Rightarrow> Sensed \<Rightarrow> Sensed option" where
  "senseCell i senseSq cx cy d s b =
     (case d of (dx, dy) \<Rightarrow>
      case js_irem (cx + dx + gridCols s) (gridCols s) of
        None \<Rightarrow> None
      | Some nx \<Rightarrow>
      case js_irem (cy + dy + gridRows s) (gridRows s) of
        None \<Rightarrow> None
      | Some ny \<Rightarrow>
      case validCell s (Some (ny * gridCols s + nx)) of
        None \<Rightarrow> None
      | Some c \<Rightarrow>
      case senseFoodLoop i senseSq (foodGridHead s c) s b of
        None \<Rightarrow> None
      | Some b \<Rightarrow>
          if predationActive s then senseOrganismLoop i senseSq (gridHead s c) s b
          else Some b)"

fun senseCells :: "nat \<Rightarrow> real \<Rightarrow> int \<Rightarrow> int \<Rightarrow> (int \<times> int) list \<Rightarrow> real engine \<Rightarrow> Sensed \<Rightarrow> Sensed option" where
  "senseCells i senseSq cx cy [] s b = Some b"
| "senseCells i senseSq cx cy (d # ds) s b =
     (case senseCell i senseSq cx cy d s b of
        None \<Rightarrow> None
      | Some b \<Rightarrow> senseCells i senseSq cx cy ds s b)"

text \<open>The nine offsets \<open>(dx, dy)\<close> in the order of the two nested loops, \<open>dy\<close> outermost.\<close>

definition neighbourhood :: "(int \<times> int) list" where
  "neighbourhood =
     [(- 1, - 1), (0, - 1), (1, - 1), (- 1, 0), (0, 0), (1, 0), (- 1, 1), (0, 1), (1, 1)]"

definition sense :: "nat \<Rightarrow> real engine \<Rightarrow> Sensed option" where
  "sense i s =
     senseCells i (gSense s i * gSense s i)
       \<lfloor>oX s i / cellSize s\<rfloor> \<lfloor>oY s i / cellSize s\<rfloor> neighbourhood s
       \<lparr>bestFood = - 1, bestFoodDist = None, bestPred = - 1, bestPredDist = None\<rparr>"

text \<open>Step 5, steering: the acceleration, with the energy tax of fleeing and the braking
  near a food target as side effects. A target of \<open>-2\<close> (a smaller organism) leads to
  the wander branch, as in the source.\<close>

definition wander :: "nat \<Rightarrow> real engine \<Rightarrow> (real \<times> real) \<times> real engine" where
  "wander i s =
     (let ag = gWander s i
      in case Math_random s of (r1, s) \<Rightarrow> case Math_random s of (r2, s) \<Rightarrow>
           (((r1 - 0.5) * ag, (r2 - 0.5) * ag), s))"

definition steer :: "nat \<Rightarrow> Sensed \<Rightarrow> real engine \<Rightarrow> (real \<times> real) \<times> real engine" where
  "steer i b s =
     (if bestPred b \<noteq> - 1
      then (case getWrappedVector s (oX s (nat (bestPred b))) (oY s (nat (bestPred b)))
                   (oX s i) (oY s i) of (vx, vy) \<Rightarrow>
              let dist = sqrt (vx * vx + vy * vy);
                  acc = (if dist > 0 then ((vx / dist) * 0.6, (vy / dist) * 0.6) else (0, 0))
              in (acc, s\<lparr>oEnergy := (oEnergy s)(i := oEnergy s i - 0.1)\<rparr>))
      else if bestFood b \<noteq> - 1
      then (if bestFood b \<ge> 0
            then (case getWrappedVector s (oX s i) (oY s i)
                         (fX s (nat (bestFood b))) (fY s (nat (bestFood b))) of (vx, vy) \<Rightarrow>
                    let dist = sqrt (vx * vx + vy * vy)
                    in if dist > 0
                       then let steerForce = max 0.25 (gSpeed s i * 0.2)
                            in (((vx / dist) * steerForce, (vy / dist) * steerForce),
                                if dist < gSize s i * 2
                                then s\<lparr>oVX := (oVX s)(i := oVX s i * 0.85),
                                       oVY := (oVY s)(i := oVY s i * 0.85)\<rparr>
                                else s)
                       else ((0, 0), s))
            else wander i s)
      else wander i s)"

text \<open>Step 6, integration: add the steering acceleration, cap the velocity magnitude at
  the speed trait, move, wrap.\<close>

definition integrate :: "nat \<Rightarrow> real \<Rightarrow> real \<Rightarrow> real engine \<Rightarrow> real engine" where
  "integrate i accX accY s =
     (let s = s\<lparr>oVX := (oVX s)(i := oVX s i + accX), oVY := (oVY s)(i := oVY s i + accY)\<rparr>;
          velMag2 = sqrt (oVX s i * oVX s i + oVY s i * oVY s i);
          s = (if velMag2 > gSpeed s i
               then let scale = gSpeed s i / velMag2
                    in s\<lparr>oVX := (oVX s)(i := oVX s i * scale), oVY := (oVY s)(i := oVY s i * scale)\<rparr>
               else s);
          s = s\<lparr>oX := (oX s)(i := oX s i + oVX s i), oY := (oY s)(i := oY s i + oVY s i)\<rparr>
      in s\<lparr>oX := (oX s)(i := wrapCoord (worldSize s) (oX s i)),
           oY := (oY s)(i := wrapCoord (worldSize s) (oY s i))\<rparr>)"

text \<open>Step 7, local interaction. The body of the feeding loop for one food handle of the
  cell:\<close>

definition eatFood :: "nat \<Rightarrow> real \<Rightarrow> nat \<Rightarrow> real engine \<Rightarrow> real engine" where
  "eatFood i eatRadSq fIdx s =
     (if fActive s fIdx
      then let dSq = getWrappedDistSq s (oX s i) (oY s i) (fX s fIdx) (fY s fIdx)
           in if dSq < eatRadSq
              then killFood fIdx
                     (s\<lparr>oEnergy := (oEnergy s)(i :=
                          min (gRepro s i * 1.2) (oEnergy s i + foodValue (config s)))\<rparr>)
              else s
      else s)"

text \<open>The loops over a cell's linked list, \<^verbatim>\<open>while (fIdx !== -1) { ...; fIdx = next[fIdx]; }\<close>.
  A handle outside the array reads \<open>undefined\<close>, which is never \<open>-1\<close> and whose
  successor is \<open>undefined\<close> again, so the loop does not end: the value \<open>None\<close>, as
  for a cyclic list.\<close>

partial_function (option) eatLoop :: "nat \<Rightarrow> real \<Rightarrow> int \<Rightarrow> real engine \<Rightarrow> real engine option" where
  "eatLoop i eatRadSq fIdx s =
     (if fIdx = - 1 then Some s
      else if fIdx < 0 \<or> fIdx \<ge> int (MAX_FOOD s) then None
      else let s = eatFood i eatRadSq (nat fIdx) s
           in eatLoop i eatRadSq (foodGridNext s (nat fIdx)) s)"

text \<open>The body of the predation loop for one organism handle of the cell.\<close>

definition attack :: "nat \<Rightarrow> nat \<Rightarrow> real engine \<Rightarrow> real engine" where
  "attack i other s =
     (if other \<noteq> i \<and> oActive s other
      then if gSize s i > gSize s other * predatorSizeAdvantage (config s)
           then let dSq = getWrappedDistSq s (oX s i) (oY s i) (oX s other) (oY s other)
                in if dSq < gSize s i * gSize s i
                   then let dmg = gDefense s other * 30;
                            s = s\<lparr>oEnergy := (oEnergy s)(i := oEnergy s i - dmg)\<rparr>;
                            s = s\<lparr>oEnergy := (oEnergy s)(i :=
                                   min (gRepro s i * 1.5)
                                       (oEnergy s i + oEnergy s other + gSize s other * 5))\<rparr>
                        in killOrganism other s
                   else s
           else s
      else s)"

partial_function (option) predationLoop :: "nat \<Rightarrow> int \<Rightarrow> real engine \<Rightarrow> real engine option" where
  "predationLoop i other s =
     (if other = - 1 then Some s
      else if other < 0 \<or> other \<ge> int (MAX_POP s) then None
      else let s = attack i (nat other) s
           in predationLoop i (gridNext s (nat other)) s)"

text \<open>Feeding, then predation when it is enabled, both over the list of the organism's
  current cell only.\<close>

definition interact :: "nat \<Rightarrow> real engine \<Rightarrow> real engine option" where
  "interact i s =
     (let eatRadSq = (gSize s i + 3) ^ 2
      in case validCell s (cellIndex s (oX s i) (oY s i)) of
           None \<Rightarrow> None
         | Some c \<Rightarrow>
             (case eatLoop i eatRadSq (foodGridHead s c) s of
                None \<Rightarrow> None
              | Some s \<Rightarrow>
                  if predationActive s then predationLoop i (gridHead s c) s
                  else Some s))"

text \<open>Step 8, reproduction. \<open>numOffspring\<close> is the intended number of children;
  \<open>spawnChild\<close> is one round of the spawning loop.\<close>

definition costPerChild :: "real \<Rightarrow> real" where
  "costPerChild e = (let c = 300; c = (if e > 600 then 280 else c) in if e > 1200 then 260 else c)"

definition numOffspring :: "real \<Rightarrow> int" where
  "numOffspring e =
     (let n = \<lfloor>e / costPerChild e\<rfloor>; n = (if n < 1 then 1 else n) in if n > 8 then 8 else n)"

definition spawnChild :: "nat \<Rightarrow> real \<Rightarrow> real engine \<Rightarrow> real engine" where
  "spawnChild i share s =
     (case spawnOrganism (oX s i) (oY s i) (int i) s of (childIdx, s) \<Rightarrow>
        if childIdx \<noteq> - 1 then s\<lparr>oEnergy := (oEnergy s)(nat childIdx := share)\<rparr> else s)"

definition reproduce :: "nat \<Rightarrow> real engine \<Rightarrow> real engine" where
  "reproduce i s =
     (if oEnergy s i > gRepro s i
      then let n = numOffspring (oEnergy s i);
               share = oEnergy s i / (of_int n + 1);
               s = s\<lparr>oEnergy := (oEnergy s)(i := share)\<rparr>
           in (spawnChild i share ^^ nat n) s
      else s)"

text \<open>The whole body for one index, and the loop of \<open>physicsStep\<close> over all slots. An
  inactive slot is skipped; an organism whose energy is used up is killed and the rest
  of its body skipped.\<close>

definition organismStep :: "nat \<Rightarrow> real engine \<Rightarrow> real engine option" where
  "organismStep i s =
     (if \<not> oActive s i then Some s
      else let s = metabolize i s
           in if oEnergy s i \<le> 0 then Some (killOrganism i s)
              else case sense i s of
                     None \<Rightarrow> None
                   | Some b \<Rightarrow>
                       (case steer i b s of ((accX, accY), s) \<Rightarrow>
                          (case interact i (integrate i accX accY s) of
                             None \<Rightarrow> None
                           | Some s \<Rightarrow> Some (reproduce i s))))"

fun physicsLoop :: "nat list \<Rightarrow> real engine \<Rightarrow> real engine option" where
  "physicsLoop [] s = Some s"
| "physicsLoop (i # rest) s =
     (case organismStep i s of None \<Rightarrow> None | Some s \<Rightarrow> physicsLoop rest s)"

definition physicsStep :: "real engine \<Rightarrow> real engine option" where
  "physicsStep s = physicsLoop [0..<MAX_POP s] s"

section \<open>One frame\<close>

text \<open>The simulation part of \<open>animate\<close>, between the input handling and the drawing:
  when not paused, the environment update, \<open>simSpeed\<close> sub-steps (grid rebuild, a food
  item with probability 0.3, the behavior step) and the reseeding of an extinct world
  every sixtieth frame; then the frame counter.\<close>

definition subStep :: "real engine \<Rightarrow> real engine option" where
  "subStep s =
     (let s = updateGrid s
      in case Math_random s of (g, s) \<Rightarrow>
           physicsStep (if g < 0.3
                        then (case getBiasedSpawnPos s of ((x, y), s) \<Rightarrow> snd (spawnFood x y s))
                        else s))"

fun subSteps :: "nat \<Rightarrow> real engine \<Rightarrow> real engine option" where
  "subSteps 0 s = Some s"
| "subSteps (Suc n) s = (case subStep s of None \<Rightarrow> None | Some s \<Rightarrow> subSteps n s)"

definition reseed :: "real engine \<Rightarrow> real engine" where
  "reseed s =
     (if activeCount s = 0 \<and> frameCount s mod 60 = 0
      then spawnRandomFood 50 ((spawnRandomOrganism ^^ 10) s)
      else s)"

definition simulate :: "real engine \<Rightarrow> real engine option" where
  "simulate s =
     (if paused s then Some (s\<lparr>frameCount := Suc (frameCount s)\<rparr>)
      else case subSteps (loopCount (simSpeed s)) (updateEnvironment s) of
             None \<Rightarrow> None
           | Some s \<Rightarrow> (let s = reseed s in Some (s\<lparr>frameCount := Suc (frameCount s)\<rparr>)))"

section \<open>Snapshots: \<open>exportState\<close> and \<open>importState\<close>\<close>

text \<open>\<open>exportState\<close>. The two scans visit the slots in index order and push the tuple of
  every active one; \<open>now\<close> is the clock reading \<^verbatim>\<open>new Date().toISOString()\<close>. The
  configuration, the camera and the zones are copied.\<close>

definition exportState :: "string \<Rightarrow> 'n engine \<Rightarrow> 'n GameState" where
  "exportState now s =
     (let orgs = fold (\<lambda>i acc. if oActive s i
                       then acc @ [[oX s i, oY s i, oVX s i, oVY s i, oEnergy s i,
                                    gSpeed s i, gSize s i, gSense s i, gRepro s i,
                                    gWander s i, gDefense s i, gMeta s i, gHue s i]]
                       else acc) [0..<MAX_POP s] [];
          fd = fold (\<lambda>i acc. if fActive s i then acc @ [[fX s i, fY s i]] else acc)
                 [0..<MAX_FOOD s] []
      in \<lparr>meta = \<lparr>version = ''1.0'', date = now\<rparr>,
          doc_config = config s,
          world = Some \<lparr>world_size = worldSize s, world_simSpeed = simSpeed s,
                        flags = Some \<lparr>predation = predationActive s, zones_flag = activeZones s,
                                      debug = debugMode s\<rparr>,
                        world_camera = camera s\<rparr>,
          environment = Some \<lparr>env_zones = zones s\<rparr>,
          entities = Some \<lparr>organisms = Some orgs, food = Some fd\<rparr>\<rparr>)"

text \<open>Reading field \<open>k\<close> of a document tuple: past the end of the tuple JavaScript
  gives \<open>undefined\<close>, which a \<open>Float32Array\<close> stores as NaN; \<open>nan\<close> is that cell.\<close>

definition tupleField :: "'n \<Rightarrow> 'n list \<Rightarrow> nat \<Rightarrow> 'n" where
  "tupleField nan t k = (if k < length t then t ! k else nan)"

definition loadOrganism :: "'n \<Rightarrow> 'n list \<Rightarrow> 'n engine \<Rightarrow> 'n engine" where
  "loadOrganism nan org s =
     (let idx = oFree s (nat (oFreePtr s))
      in s\<lparr>oFreePtr := oFreePtr s - 1,
           oActive := (oActive s)(idx := True),
           activeCount := activeCount s + 1,
           oX := (oX s)(idx := tupleField nan org 0), oY := (oY s)(idx := tupleField nan org 1),
           oVX := (oVX s)(idx := tupleField nan org 2), oVY := (oVY s)(idx := tupleField nan org 3),
           oEnergy := (oEnergy s)(idx := tupleField nan org 4),
           gSpeed := (gSpeed s)(idx := tupleField nan org 5),
           gSize := (gSize s)(idx := tupleField nan org 6),
           gSense := (gSense s)(idx := tupleField nan org 7),
           gRepro := (gRepro s)(idx := tupleField nan org 8),
           gWander := (gWander s)(idx := tupleField nan org 9),
           gDefense := (gDefense s)(idx := tupleField nan org 10),
           gMeta := (gMeta s)(idx := tupleField nan org 11),
           gHue := (gHue s)(idx := tupleField nan org 12)\<rparr>)"

fun loadOrganisms :: "'n \<Rightarrow> 'n list list \<Rightarrow> 'n engine \<Rightarrow> 'n engine" where
  "loadOrganisms nan [] s = s"
| "loadOrganisms nan (org # rest) s =
     (if oFreePtr s < 0 then s else loadOrganisms nan rest (loadOrganism nan org s))"

definition loadFoodItem :: "'n \<Rightarrow> 'n list \<Rightarrow> 'n engine \<Rightarrow> 'n engine" where
  "loadFoodItem nan f s =
     (let idx = fFree s (nat (fFreePtr s))
      in s\<lparr>fFreePtr := fFreePtr s - 1,
           fActive := (fActive s)(idx := True),
           fX := (fX s)(idx := tupleField nan f 0), fY := (fY s)(idx := tupleField nan f 1),
           foodCount := foodCount s + 1\<rparr>)"

fun loadFood :: "'n \<Rightarrow> 'n list list \<Rightarrow> 'n engine \<Rightarrow> 'n engine" where
  "loadFood nan [] s = s"
| "loadFood nan (f # rest) s =
     (if fFreePtr s < 0 then s else loadFood nan rest (loadFoodItem nan f s))"

text \<open>\<open>importState\<close>. Reading a field of an absent section, or iterating an absent list,
  raises a \<open>TypeError\<close>; an exception does not undo the assignments made before it, so
  every step returns the exception, if any, together with the engine as it then stands.

  \<open>loadHeader\<close> is the block "Load Config & World": the configuration is assigned
  first, then the world size and speed, which read \<open>state.world\<close>, then the three flags,
  which read \<open>state.world.flags\<close>, then the camera, then the zones, which read
  \<open>state.environment\<close>.\<close>

datatype error = TypeError

definition loadHeader :: "'n GameState \<Rightarrow> 'n engine \<Rightarrow> error option \<times> 'n engine" where
  "loadHeader state s =
     (let s = s\<lparr>config := doc_config state\<rparr>
      in case world state of
           None \<Rightarrow> (Some TypeError, s)
         | Some w \<Rightarrow>
             let s = s\<lparr>worldSize := world_size w, simSpeed := world_simSpeed w\<rparr>
             in case flags w of
                  None \<Rightarrow> (Some TypeError, s)
                | Some fl \<Rightarrow>
                    let s = s\<lparr>predationActive := predation fl, activeZones := zones_flag fl,
                              debugMode := debug fl, camera := world_camera w\<rparr>
                    in case environment state of
                         None \<Rightarrow> (Some TypeError, s)
                       | Some env \<Rightarrow> (None, s\<lparr>zones := env_zones env\<rparr>))"

text \<open>The blocks "Load Organisms" and "Load Food": \<open>state.entities\<close> is read, and its
  organism list iterated, before any organism is loaded; the food list is read once the
  organisms are loaded.\<close>

definition loadEntities :: "'n \<Rightarrow> 'n GameState \<Rightarrow> 'n engine \<Rightarrow> error option \<times> 'n engine" where
  "loadEntities nan state s =
     (case entities state of
        None \<Rightarrow> (Some TypeError, s)
      | Some ents \<Rightarrow>
          (case organisms ents of
             None \<Rightarrow> (Some TypeError, s)
           | Some orgs \<Rightarrow>
               let s = loadOrganisms nan orgs s
               in case food ents of
                    None \<Rightarrow> (Some TypeError, s)
                  | Some fs \<Rightarrow> (None, loadFood nan fs s)))"

text \<open>The whole of \<open>importState\<close>: the reset, the header, the entities, and the closing
  \<open>resize\<close> to the canvas's own dimensions, which clamps the camera. The redraw that
  follows only reads the engine; the canvas is outside the model, so the result records
  the exceptions raised before the redraw, and the engine is as it stands from then
  on.\<close>

definition importState :: "'n \<Rightarrow> 'n GameState \<Rightarrow> 'n engine \<Rightarrow> error option \<times> 'n engine" where
  "importState nan state s =
     (case loadHeader state (resetStores s) of
        (Some e, s) \<Rightarrow> (Some e, s)
      | (None, s) \<Rightarrow>
          (case loadEntities nan state s of
             (Some e, s) \<Rightarrow> (Some e, s)
           | (None, s) \<Rightarrow> (None, clampCamera s)))"

section \<open>Construction\<close>

text \<open>The field initialisers and the array allocations of the constructor, before it
  calls \<open>init\<close>: zero-filled arrays, both free lists filled in descending order, the
  default configuration. The capacities, the canvas and the random sequence are given;
  \<open>z\<close> is the zero cell.\<close>

definition defaultConfig :: GameConfig where
  "defaultConfig =
     \<lparr>initialPop = 50, initialFood = 150, mutationRate = 0.5, mutationChance = 0.9,
      baseMetabolism = 0.002, startEnergy = 150, predatorSizeAdvantage = 1.2,
      foodValue = 25, maxToxicity = 0.9, zoneCount = 5, zoneDensity = 5,
      zoneDrift = 0.3, zoneSize = 350\<rparr>"

definition blankEngine ::
  "'n \<Rightarrow> nat \<Rightarrow> nat \<Rightarrow> nat \<Rightarrow> bool \<Rightarrow> real \<Rightarrow> real \<Rightarrow> (nat \<Rightarrow> real) \<Rightarrow> 'n engine" where
  "blankEngine z maxPop maxFood maxGridDim hasCtx w h rnd =
     \<lparr>MAX_POP = maxPop, MAX_FOOD = maxFood, MAX_GRID_DIM = maxGridDim,
      worldSize = 3000, cellSize = 320, simSpeed = 1, debugMode = False,
      predationActive = True, activeZones = True, paused = False, frameCount = 0,
      camera = \<lparr>cam_x = 0, cam_y = 0, zoom = 0.5\<rparr>, followedIndex = - 1,
      config = defaultConfig, zones = [],
      oX = (\<lambda>_. z), oY = (\<lambda>_. z), oVX = (\<lambda>_. z), oVY = (\<lambda>_. z), oEnergy = (\<lambda>_. z),
      gSpeed = (\<lambda>_. z), gSize = (\<lambda>_. z), gSense = (\<lambda>_. z), gRepro = (\<lambda>_. z),
      gWander = (\<lambda>_. z), gDefense = (\<lambda>_. z), gMeta = (\<lambda>_. z), gHue = (\<lambda>_. z),
      oActive = (\<lambda>_. False),
      oFree = (\<lambda>i. if i < maxPop then maxPop - 1 - i else 0),
      oFreePtr = int maxPop - 1, activeCount = 0,
      fX = (\<lambda>_. z), fY = (\<lambda>_. z), fActive = (\<lambda>_. False),
      fFree = (\<lambda>i. if i < maxFood then maxFood - 1 - i else 0),
      fFreePtr = int maxFood - 1, foodCount = 0,
      gridHead = (\<lambda>_. 0), gridNext = (\<lambda>_. 0),
      foodGridHead = (\<lambda>_. 0), foodGridNext = (\<lambda>_. 0),
      gridCols = 0, gridRows = 0,
      ctx = hasCtx, canvasWidth = w, canvasHeight = h,
      random = rnd, drawn = 0\<rparr>"

definition newGameEngine ::
  "nat \<Rightarrow> nat \<Rightarrow> nat \<Rightarrow> bool \<Rightarrow> real \<Rightarrow> real \<Rightarrow> (nat \<Rightarrow> real) \<Rightarrow> real engine" where
  "newGameEngine maxPop maxFood maxGridDim hasCtx w h rnd =
     init (blankEngine 0 maxPop maxFood maxGridDim hasCtx w h rnd)"

section \<open>Properties of the state\<close>

text \<open>The free list of a store is the part of its stack array up to the stack pointer.
  A store is consistent when the free list has no duplicates and holds exactly the
  inactive slots, and the counter is the number of active-flagged slots.\<close>

definition freeList :: "(nat \<Rightarrow> nat) \<Rightarrow> int \<Rightarrow> nat list" where
  "freeList fr ptr = map fr [0..<nat (ptr + 1)]"

definition pool_inv :: "nat \<Rightarrow> (nat \<Rightarrow> bool) \<Rightarrow> (nat \<Rightarrow> nat) \<Rightarrow> int \<Rightarrow> int \<Rightarrow> bool" where
  "pool_inv cap act fr ptr cnt \<longleftrightarrow>
     - 1 \<le> ptr \<and> distinct (freeList fr ptr) \<and>
     set (freeList fr ptr) = set (filter (\<lambda>i. \<not> act i) [0..<cap]) \<and>
     cnt = int (length (filter act [0..<cap]))"

definition orgStore_inv :: "'n engine \<Rightarrow> bool" where
  "orgStore_inv s \<longleftrightarrow> pool_inv (MAX_POP s) (oActive s) (oFree s) (oFreePtr s) (activeCount s)"

definition foodStore_inv :: "'n engine \<Rightarrow> bool" where
  "foodStore_inv s \<longleftrightarrow> pool_inv (MAX_FOOD s) (fActive s) (fFree s) (fFreePtr s) (foodCount s)"

definition store_inv :: "'n engine \<Rightarrow> bool" where
  "store_inv s \<longleftrightarrow> orgStore_inv s \<and> foodStore_inv s"

text \<open>The allocation state of each store, for stating what an operation leaves alone.\<close>

definition orgAlloc :: "'n engine \<Rightarrow> nat \<times> (nat \<Rightarrow> bool) \<times> (nat \<Rightarrow> nat) \<times> int \<times> int" where
  "orgAlloc s = (MAX_POP s, oActive s, oFree s, oFreePtr s, activeCount s)"

definition foodAlloc :: "'n engine \<Rightarrow> nat \<times> (nat \<Rightarrow> bool) \<times> (nat \<Rightarrow> nat) \<times> int \<times> int" where
  "foodAlloc s = (MAX_FOOD s, fActive s, fFree s, fFreePtr s, foodCount s)"

text \<open>The number of active-flagged slots of each store, and the size of each free
  list.\<close>

definition activeSlots :: "'n engine \<Rightarrow> nat" where
  "activeSlots s = length (filter (oActive s) [0..<MAX_POP s])"

definition activeFoodSlots :: "'n engine \<Rightarrow> nat" where
  "activeFoodSlots s = length (filter (fActive s) [0..<MAX_FOOD s])"

definition freeSlots :: "'n engine \<Rightarrow> int" where
  "freeSlots s = oFreePtr s + 1"

definition freeFoodSlots :: "'n engine \<Rightarrow> int" where
  "freeFoodSlots s = fFreePtr s + 1"

text \<open>The energy held by the active organisms.\<close>

definition totalEnergy :: "real engine \<Rightarrow> real" where
  "totalEnergy s = sum_list (map (oEnergy s) (filter (oActive s) [0..<MAX_POP s]))"

text \<open>The target zone count in the words of the specification,
  \<open>ceil(density \<times> worldArea / referenceArea)\<close>: the world is a square of side
  \<open>worldSize\<close>, and the reference world is the square of side 3000.\<close>

definition areaTargetZoneCount :: "'n engine \<Rightarrow> int" where
  "areaTargetZoneCount s =
     \<lceil>zoneDensity (config s) * (worldSize s * worldSize s) / (3000 * 3000)\<rceil>"

text \<open>The declared ranges of the seven clamped traits, as the clamps of
  \<open>spawnOrganism\<close> state them; with the hue in \<open>[0, 360)\<close> they are the declared
  ranges of the eight traits. \<open>randomInUnit\<close> is the range of the values \<open>Math.random\<close>
  returns.\<close>

definition clampedInRange :: "real engine \<Rightarrow> nat \<Rightarrow> bool" where
  "clampedInRange s i \<longleftrightarrow>
     0.5 \<le> gSpeed s i \<and> gSpeed s i \<le> 8 \<and>
     4 \<le> gSize s i \<and> gSize s i \<le> 30 \<and>
     20 \<le> gSense s i \<and> gSense s i \<le> 300 \<and>
     100 \<le> gRepro s i \<and> gRepro s i \<le> 2500 \<and>
     0.05 \<le> gWander s i \<and> gWander s i \<le> 2 \<and>
     0 \<le> gDefense s i \<and> gDefense s i \<le> 1 \<and>
     0.5 \<le> gMeta s i \<and> gMeta s i \<le> 3"


definition randomInUnit :: "'n engine \<Rightarrow> bool" where
  "randomInUnit s \<longleftrightarrow> (\<forall>n. 0 \<le> random s n \<and> random s n < 1)"


text \<open>The state \<open>t\<close> of the spawning loop of reproduction once \<open>k\<close> children have been
  spawned from the state \<open>s\<close>, each with the energy \<open>share\<close>.\<close>

definition spawned :: "real engine \<Rightarrow> real \<Rightarrow> nat \<Rightarrow> real engine \<Rightarrow> bool" where
  "spawned s share k t \<longleftrightarrow>
     orgStore_inv t \<and> MAX_POP t = MAX_POP s \<and>
     oFreePtr t = oFreePtr s - int k \<and> activeCount t = activeCount s + int k \<and>
     (\<forall>j. oActive s j \<longrightarrow> oActive t j \<and> oEnergy t j = oEnergy s j) \<and>
     (\<forall>j. oActive t j \<and> \<not> oActive s j \<longrightarrow> oEnergy t j = share) \<and>
     totalEnergy t = totalEnergy s + real k * share"

text \<open>What a state holds: the 13 cells of an organism slot and the 2 cells of a food
  slot, the tuples of the active slots in slot order, and the multiset of the organism
  tuples.\<close>

definition orgTuple :: "'n engine \<Rightarrow> nat \<Rightarrow> 'n list" where
  "orgTuple s i =
     [oX s i, oY s i, oVX s i, oVY s i, oEnergy s i,
      gSpeed s i, gSize s i, gSense s i, gRepro s i,
      gWander s i, gDefense s i, gMeta s i, gHue s i]"

definition foodTuple :: "'n engine \<Rightarrow> nat \<Rightarrow> 'n list" where
  "foodTuple s i = [fX s i, fY s i]"

definition organismList :: "'n engine \<Rightarrow> 'n list list" where
  "organismList s = map (orgTuple s) (filter (oActive s) [0..<MAX_POP s])"

definition organismBag :: "'n engine \<Rightarrow> 'n list multiset" where
  "organismBag s = mset (organismList s)"

definition foodList :: "'n engine \<Rightarrow> 'n list list" where
  "foodList s = map (foodTuple s) (filter (fActive s) [0..<MAX_FOOD s])"

text \<open>After the reset and \<open>k\<close> loads a store holds its entities in the slots
  \<open>0, ..., k - 1\<close>, in document order.\<close>

definition loadedOrg :: "'n engine \<Rightarrow> nat \<Rightarrow> bool" where
  "loadedOrg s k \<longleftrightarrow>
     k \<le> MAX_POP s \<and> oFreePtr s = int (MAX_POP s) - 1 - int k \<and> activeCount s = int k \<and>
     (\<forall>i < MAX_POP s. oFree s i = MAX_POP s - 1 - i) \<and>
     (\<forall>i < MAX_POP s. oActive s i \<longleftrightarrow> i < k)"

definition loadedFood :: "'n engine \<Rightarrow> nat \<Rightarrow> bool" where
  "loadedFood s k \<longleftrightarrow>
     k \<le> MAX_FOOD s \<and> fFreePtr s = int (MAX_FOOD s) - 1 - int k \<and> foodCount s = int k \<and>
     (\<forall>i < MAX_FOOD s. fFree s i = MAX_FOOD s - 1 - i) \<and>
     (\<forall>i < MAX_FOOD s. fActive s i \<longleftrightarrow> i < k)"

text \<open>A document tuple as the stores receive it: its first \<open>n\<close> fields, the missing
  ones read as \<open>nan\<close>.\<close>

definition padTuple :: "'n \<Rightarrow> nat \<Rightarrow> 'n list \<Rightarrow> 'n list" where
  "padTuple nan n t = map (tupleField nan t) [0..<n]"

text \<open>The configuration, world size, speed, flags and zone list of an engine.\<close>

definition headerView ::
  "'n engine \<Rightarrow> GameConfig \<times> real \<times> real \<times> bool \<times> bool \<times> bool \<times> Zone list" where
  "headerView s =
     (config s, worldSize s, simSpeed s, predationActive s, activeZones s, debugMode s, zones s)"


section \<open>Example states\<close>

text \<open>Small engines on which the statements below are evaluated: capacity two with one
  organism and one food item, and capacity one with both stores full.\<close>

definition tinyEngine :: "real engine" where
  "tinyEngine = blankEngine 0 2 2 4 False 0 0 (\<lambda>_. 1 / 2)"

definition seededEngine :: "real engine" where
  "seededEngine = snd (spawnFood 1 2 (snd (spawnOrganism 10 20 (- 1) tinyEngine)))"

definition unitEngine :: "real engine" where
  "unitEngine = blankEngine 0 1 1 4 False 0 0 (\<lambda>_. 1 / 2)"

definition fullEngine :: "real engine" where
  "fullEngine = snd (spawnFood 1 2 (snd (spawnOrganism 10 20 (- 1) unitEngine)))"

text \<open>The same engine in a world of side 6000 (the option \<open>Large\<close> of the controls),
  and with the hazard zones switched off.\<close>

definition largeWorld :: "real engine" where
  "largeWorld = tinyEngine\<lparr>worldSize := 6000\<rparr>"

definition zonesOff :: "real engine" where
  "zonesOff = tinyEngine\<lparr>activeZones := False, zones := [\<lparr>pos = \<lparr>vec_x = 1, vec_y = 1\<rparr>,
      radius = 350, vel = \<lparr>vec_x = 0, vec_y = 0\<rparr>\<rparr>]\<rparr>"

definition crowded :: "real engine" where
  "crowded = tinyEngine\<lparr>config := defaultConfig\<lparr>zoneDensity := 0\<rparr>,
      zones := [\<lparr>pos = \<lparr>vec_x = 1, vec_y = 1\<rparr>, radius = 350, vel = \<lparr>vec_x = 0, vec_y = 0\<rparr>\<rparr>]\<rparr>"

text \<open>The engine of capacity two with one organism in slot 0, every field of which is
  given: position (100, 200), velocity (3, 4), energy 700, reproduction threshold 500,
  hue 350. Slot 1 is on the free list.\<close>

definition oneOrganism :: "real engine" where
  "oneOrganism =
     tinyEngine\<lparr>oActive := (\<lambda>_. False)(0 := True), oFreePtr := 0, activeCount := 1,
       oX := (\<lambda>_. 0)(0 := 100), oY := (\<lambda>_. 0)(0 := 200),
       oVX := (\<lambda>_. 0)(0 := 3), oVY := (\<lambda>_. 0)(0 := 4),
       oEnergy := (\<lambda>_. 0)(0 := 700),
       gSpeed := (\<lambda>_. 0)(0 := 2), gSize := (\<lambda>_. 0)(0 := 10), gSense := (\<lambda>_. 0)(0 := 50),
       gRepro := (\<lambda>_. 0)(0 := 500), gWander := (\<lambda>_. 0)(0 := 0.3),
       gDefense := (\<lambda>_. 0)(0 := 0.05), gMeta := (\<lambda>_. 0)(0 := 1),
       gHue := (\<lambda>_. 0)(0 := 350)\<rparr>"





text \<open>Two organisms side by side in a full store of capacity two: the attacker in slot 0
  (size 10, energy 200, reproduction threshold 1000) and a smaller one in slot 1 (size 5,
  energy 100), with no defense in \<open>duel\<close> and with the maximal defense 1 in
  \<open>armoured\<close>. The cell list of the attacker's cell holds slot 1 only.\<close>

definition duel :: "real engine" where
  "duel =
     tinyEngine\<lparr>oActive := (\<lambda>_. True), oFreePtr := - 1, activeCount := 2,
       oX := (\<lambda>_. 0)(0 := 100, 1 := 101), oY := (\<lambda>_. 100),
       oEnergy := (\<lambda>_. 0)(0 := 200, 1 := 100),
       gSpeed := (\<lambda>_. 2), gSize := (\<lambda>_. 0)(0 := 10, 1 := 5), gSense := (\<lambda>_. 50),
       gRepro := (\<lambda>_. 1000), gWander := (\<lambda>_. 0.3), gDefense := (\<lambda>_. 0),
       gMeta := (\<lambda>_. 1), gHue := (\<lambda>_. 0),
       gridHead := (\<lambda>_. 1), gridNext := (\<lambda>_. - 1), gridCols := 10, gridRows := 10\<rparr>"

definition armoured :: "real engine" where
  "armoured = duel\<lparr>gDefense := (\<lambda>_. 0)(1 := 1)\<rparr>"

text \<open>The single organism with energy 550, just above its reproduction threshold 500:
  one child is intended and one slot is free. In \<open>oneOrganism\<close> the energy is 700: two
  children are intended and one slot is free.\<close>

definition fertile :: "real engine" where
  "fertile = oneOrganism\<lparr>oEnergy := (\<lambda>_. 0)(0 := 550)\<rparr>"

text \<open>An engine of capacity four for organisms and three for food. Slots 0, 2 and 3
  hold organisms, the last two with equal cells; slot 1 is free. Food lies in slots 1
  and 2; slot 0 is free. \<open>vacant\<close> is the empty engine of the same capacities.\<close>

definition vacant :: "real engine" where
  "vacant = blankEngine 0 4 3 4 False 0 0 (\<lambda>_. 1 / 2)"

definition colony :: "real engine" where
  "colony =
     vacant\<lparr>oActive := (\<lambda>_. False)(0 := True, 2 := True, 3 := True), oFreePtr := 0,
       oFree := (\<lambda>_. 0)(0 := 1), activeCount := 3,
       oX := (\<lambda>_. 0)(0 := 100, 2 := 7, 3 := 7), oY := (\<lambda>_. 0)(0 := 200, 2 := 8, 3 := 8),
       oVX := (\<lambda>_. 0)(0 := 3), oVY := (\<lambda>_. 0)(0 := 4),
       oEnergy := (\<lambda>_. 0)(0 := 700, 2 := 90, 3 := 90),
       gSpeed := (\<lambda>_. 2), gSize := (\<lambda>_. 0)(0 := 10, 2 := 5, 3 := 5), gSense := (\<lambda>_. 50),
       gRepro := (\<lambda>_. 500), gWander := (\<lambda>_. 1), gDefense := (\<lambda>_. 0),
       gMeta := (\<lambda>_. 1), gHue := (\<lambda>_. 0)(0 := 350, 2 := 20, 3 := 20),
       fActive := (\<lambda>_. False)(1 := True, 2 := True), fFreePtr := 0, fFree := (\<lambda>_. 0),
       foodCount := 2,
       fX := (\<lambda>_. 0)(1 := 5, 2 := 7), fY := (\<lambda>_. 0)(1 := 6, 2 := 8),
       predationActive := False, worldSize := 6000,
       zones := [\<lparr>pos = \<lparr>vec_x = 1, vec_y = 1\<rparr>, radius = 350, vel = \<lparr>vec_x = 0, vec_y = 0\<rparr>\<rparr>]\<rparr>"


















section \<open>Free lists\<close>

lemma length_filter_upt_card: "length (filter P [0..<n]) = card {i. i < n \<and> P i}"
proof -
  have "distinct (filter P [0..<n])" by simp
  then have "card (set (filter P [0..<n])) = length (filter P [0..<n])" by (rule distinct_card)
  moreover have "set (filter P [0..<n]) = {i. i < n \<and> P i}" by auto
  ultimately show ?thesis by simp
qed

lemma pool_counts:
  assumes "pool_inv cap act fr ptr cnt"
  shows "cnt = int (length (filter act [0..<cap]))" and "ptr + 1 = int cap - cnt"
proof -
  show c: "cnt = int (length (filter act [0..<cap]))" using assms by (simp add: pool_inv_def)
  have "distinct (freeList fr ptr)" using assms by (simp add: pool_inv_def)
  then have "card (set (freeList fr ptr)) = length (freeList fr ptr)" by (rule distinct_card)
  moreover have "set (freeList fr ptr) = {i. i < cap \<and> \<not> act i}"
    using assms by (auto simp add: pool_inv_def)
  ultimately have "nat (ptr + 1) = length (filter (\<lambda>i. \<not> act i) [0..<cap])"
    by (simp add: freeList_def length_filter_upt_card)
  moreover have "length (filter act [0..<cap]) + length (filter (\<lambda>i. \<not> act i) [0..<cap]) = cap"
    using sum_length_filter_compl [of act "[0..<cap]"] by simp
  moreover have "- 1 \<le> ptr" using assms by (simp add: pool_inv_def)
  ultimately show "ptr + 1 = int cap - cnt" using c by linarith
qed

lemma freeList_snoc: "0 \<le> ptr \<Longrightarrow> freeList fr ptr = freeList fr (ptr - 1) @ [fr (nat ptr)]"
proof -
  assume "0 \<le> ptr"
  then have "nat (ptr + 1) = Suc (nat ptr)" by simp
  then show ?thesis by (simp add: freeList_def)
qed

lemma freeList_upd: "- 1 \<le> ptr \<Longrightarrow> freeList (fr(nat (ptr + 1) := v)) ptr = freeList fr ptr"
  by (simp add: freeList_def)

lemma pool_pop:
  assumes inv: "pool_inv cap act fr ptr cnt" and nonempty: "0 \<le> ptr"
  shows "pool_inv cap (act(fr (nat ptr) := True)) fr (ptr - 1) (cnt + 1)"
proof -
  let ?i = "fr (nat ptr)"
  have sn: "freeList fr ptr = freeList fr (ptr - 1) @ [?i]" using nonempty by (rule freeList_snoc)
  have d: "distinct (freeList fr (ptr - 1))" and fresh: "?i \<notin> set (freeList fr (ptr - 1))"
    using inv sn by (simp_all add: pool_inv_def)
  have s: "insert ?i (set (freeList fr (ptr - 1))) = {i. i < cap \<and> \<not> act i}"
    using inv sn by (auto simp add: pool_inv_def)
  then have i: "?i < cap" "\<not> act ?i" by auto
  have s': "set (freeList fr (ptr - 1)) = set (filter (\<lambda>i. \<not> (act(?i := True)) i) [0..<cap])"
    using s fresh by auto
  have "{i. i < cap \<and> (act(?i := True)) i} = insert ?i {i. i < cap \<and> act i}"
    using i by auto
  moreover have "?i \<notin> {i. i < cap \<and> act i}" using i by simp
  ultimately have "card {i. i < cap \<and> (act(?i := True)) i} = Suc (card {i. i < cap \<and> act i})"
    by simp
  then have c: "cnt + 1 = int (length (filter (act(?i := True)) [0..<cap]))"
    using inv by (simp add: pool_inv_def length_filter_upt_card)
  show ?thesis unfolding pool_inv_def using d s' c nonempty by simp
qed

lemma pool_push:
  assumes inv: "pool_inv cap act fr ptr cnt" and i: "idx < cap" "act idx"
  shows "pool_inv cap (act(idx := False)) (fr(nat (ptr + 1) := idx)) (ptr + 1) (cnt - 1)"
proof -
  have p: "- 1 \<le> ptr" using inv by (simp add: pool_inv_def)
  let ?fr = "fr(nat (ptr + 1) := idx)"
  have sn: "freeList ?fr (ptr + 1) = freeList fr ptr @ [idx]"
    using p freeList_snoc [of "ptr + 1" ?fr] freeList_upd [of ptr fr idx] by simp
  have fresh: "idx \<notin> set (freeList fr ptr)" using inv i by (simp add: pool_inv_def)
  have d: "distinct (freeList ?fr (ptr + 1))" using inv fresh sn by (simp add: pool_inv_def)
  have s: "set (freeList ?fr (ptr + 1)) = set (filter (\<lambda>j. \<not> (act(idx := False)) j) [0..<cap])"
    using inv i sn by (auto simp add: pool_inv_def)
  have "{j. j < cap \<and> act j} = insert idx {j. j < cap \<and> (act(idx := False)) j}"
    using i by auto
  moreover have "idx \<notin> {j. j < cap \<and> (act(idx := False)) j}" by simp
  moreover have "finite {j. j < cap \<and> (act(idx := False)) j}" by simp
  ultimately have "card {j. j < cap \<and> act j} = Suc (card {j. j < cap \<and> (act(idx := False)) j})"
    by (metis card_insert_disjoint)
  then have c: "cnt - 1 = int (length (filter (act(idx := False)) [0..<cap]))"
    using inv by (simp add: pool_inv_def length_filter_upt_card)
  show ?thesis unfolding pool_inv_def using d s c p by simp
qed

lemma pool_reset:
  assumes fr: "\<And>i. i < cap \<Longrightarrow> fr i = cap - 1 - i" and act: "\<And>i. i < cap \<Longrightarrow> \<not> act i"
  shows "pool_inv cap act fr (int cap - 1) 0"
proof -
  have fl: "freeList fr (int cap - 1) = map (\<lambda>i. cap - 1 - i) [0..<cap]"
    using fr by (simp add: freeList_def)
  have "inj_on (\<lambda>i. cap - 1 - i) {0..<cap}"
  proof (rule inj_onI)
    fix a b assume "a \<in> {0..<cap}" "b \<in> {0..<cap}" "cap - 1 - a = cap - 1 - b"
    then have "a < cap" "b < cap" "cap - 1 - a = cap - 1 - b" by simp_all
    then show "a = b" by arith
  qed
  then have d: "distinct (freeList fr (int cap - 1))" by (simp add: fl distinct_map)
  have "(\<lambda>i. cap - 1 - i) ` {0..<cap} = {0..<cap}"
  proof (rule set_eqI, rule iffI)
    fix j assume "j \<in> (\<lambda>i. cap - 1 - i) ` {0..<cap}" then show "j \<in> {0..<cap}" by auto
  next
    fix j assume j: "j \<in> {0..<cap}"
    then have "j = cap - 1 - (cap - 1 - j)" "cap - 1 - j \<in> {0..<cap}" by auto
    then show "j \<in> (\<lambda>i. cap - 1 - i) ` {0..<cap}" by (rule image_eqI)
  qed
  then have s: "set (freeList fr (int cap - 1)) = set (filter (\<lambda>i. \<not> act i) [0..<cap])"
    using act by (auto simp add: fl)
  have c: "filter act [0..<cap] = []" using act by (simp add: filter_empty_conv)
  show ?thesis unfolding pool_inv_def using d s c by simp
qed

section \<open>Spawn, kill and reset keep the stores consistent\<close>

lemma orgStore_inv_cong: "orgAlloc s' = orgAlloc s \<Longrightarrow> orgStore_inv s' = orgStore_inv s"
  by (simp add: orgAlloc_def orgStore_inv_def)

lemma foodStore_inv_cong: "foodAlloc s' = foodAlloc s \<Longrightarrow> foodStore_inv s' = foodStore_inv s"
  by (simp add: foodAlloc_def foodStore_inv_def)

lemma mutateTrait_frame:
  assumes "\<And>f t. P (upd f t) = P t" and "\<And>n t. P (t\<lparr>drawn := n\<rparr>) = P t"
  shows "P (mutateTrait upd idx chance scale s) = P s"
  using assms by (simp add: mutateTrait_def Math_random_def)

lemma spawnOrganism_empty: "oFreePtr s < 0 \<Longrightarrow> spawnOrganism x y p s = (- 1, s)"
  by (simp add: spawnOrganism_def)

lemma spawnOrganism_fst:
  "0 \<le> oFreePtr s \<Longrightarrow> fst (spawnOrganism x y p s) = int (oFree s (nat (oFreePtr s)))"
  by (simp add: spawnOrganism_def allocOrganism_def Let_def split_def)

lemma initOrganism_frame:
  assumes "\<And>f t. P (oX_update f t) = P t" "\<And>f t. P (oY_update f t) = P t"
    "\<And>f t. P (oVX_update f t) = P t" "\<And>f t. P (oVY_update f t) = P t"
    "\<And>f t. P (gSpeed_update f t) = P t" "\<And>f t. P (gSize_update f t) = P t"
    "\<And>f t. P (gSense_update f t) = P t" "\<And>f t. P (gRepro_update f t) = P t"
    "\<And>f t. P (gWander_update f t) = P t" "\<And>f t. P (gDefense_update f t) = P t"
    "\<And>f t. P (gMeta_update f t) = P t" "\<And>f t. P (gHue_update f t) = P t"
    "\<And>f t. P (drawn_update f t) = P t"
  shows "P (initOrganism x y p idx s) = P s"
proof -
  have m: "\<And>upd k c sc t. (\<And>f t. P (upd f t) = P t) \<Longrightarrow> P (mutateTrait upd k c sc t) = P t"
    by (rule mutateTrait_frame) (simp_all add: assms)
  have mt: "\<And>k c r t. P (mutateTraits k c r t) = P t"
    by (simp add: mutateTraits_def Let_def m assms)
  have ct: "\<And>k t. P (clampTraits k t) = P t"
    by (simp add: clampTraits_def clampTrait_def Let_def assms)
  have cp: "\<And>k q t. P (copyTraits k q t) = P t"
    by (simp add: copyTraits_def assms)
  have it: "\<And>k q t. P (inheritTraits k q t) = P t"
    by (simp add: inheritTraits_def ct mt cp)
  have rt: "\<And>k t. P (randomTraits k t) = P t"
    by (simp add: randomTraits_def Math_random_def assms)
  show ?thesis
    by (simp add: initOrganism_def Let_def Math_random_def split_def it rt assms)
qed

lemma initOrganism_allocs:
  "orgAlloc (initOrganism x y p idx s) = orgAlloc s"
  "foodAlloc (initOrganism x y p idx s) = foodAlloc s"
  by (rule initOrganism_frame; simp add: orgAlloc_def foodAlloc_def)+

lemma spawnOrganism_orgAlloc:
  "0 \<le> oFreePtr s \<Longrightarrow> orgAlloc (snd (spawnOrganism x y p s)) =
     (MAX_POP s, (oActive s)(oFree s (nat (oFreePtr s)) := True), oFree s, oFreePtr s - 1, activeCount s + 1)"
proof -
  assume a: "0 \<le> oFreePtr s"
  have e: "\<And>t v. orgAlloc (t\<lparr>oEnergy := v\<rparr>) = orgAlloc t" by (simp add: orgAlloc_def)
  show ?thesis using a
    by (simp add: spawnOrganism_def allocOrganism_def Let_def split_def e initOrganism_allocs)
       (simp add: orgAlloc_def)
qed

lemma spawnOrganism_foodAlloc: "foodAlloc (snd (spawnOrganism x y p s)) = foodAlloc s"
proof -
  have e: "\<And>t v. foodAlloc (t\<lparr>oEnergy := v\<rparr>) = foodAlloc t" by (simp add: foodAlloc_def)
  show ?thesis
    by (simp add: spawnOrganism_def allocOrganism_def Let_def split_def e initOrganism_allocs)
       (simp add: foodAlloc_def)
qed

lemma spawnOrganism_orgStore_inv:
  assumes "orgStore_inv s" shows "orgStore_inv (snd (spawnOrganism x y p s))"
proof (cases "oFreePtr s < 0")
  case True then show ?thesis using assms by (simp add: spawnOrganism_empty)
next
  case False
  then have p: "0 \<le> oFreePtr s" by simp
  have "pool_inv (MAX_POP s) ((oActive s)(oFree s (nat (oFreePtr s)) := True)) (oFree s)
          (oFreePtr s - 1) (activeCount s + 1)"
    using assms p unfolding orgStore_inv_def by (rule pool_pop)
  then show ?thesis
    using spawnOrganism_orgAlloc [OF p, of x y p] by (simp add: orgStore_inv_def orgAlloc_def)
qed

lemma spawnOrganism_foodStore_inv:
  "foodStore_inv (snd (spawnOrganism x y p s)) = foodStore_inv s"
  by (rule foodStore_inv_cong) (rule spawnOrganism_foodAlloc)

lemma killOrganism_orgAlloc:
  "orgAlloc (killOrganism idx s) =
     (MAX_POP s, (oActive s)(idx := False), (oFree s)(nat (oFreePtr s + 1) := idx),
      oFreePtr s + 1, activeCount s - 1)"
  by (simp add: killOrganism_def Let_def orgAlloc_def)

lemma killOrganism_foodAlloc: "foodAlloc (killOrganism idx s) = foodAlloc s"
  by (simp add: killOrganism_def Let_def foodAlloc_def)

lemma killOrganism_orgStore_inv:
  assumes "orgStore_inv s" "idx < MAX_POP s" "oActive s idx"
  shows "orgStore_inv (killOrganism idx s)"
proof -
  have "pool_inv (MAX_POP s) ((oActive s)(idx := False)) ((oFree s)(nat (oFreePtr s + 1) := idx))
          (oFreePtr s + 1) (activeCount s - 1)"
    using assms unfolding orgStore_inv_def by (rule pool_push)
  then show ?thesis using killOrganism_orgAlloc [of idx s] by (simp add: orgStore_inv_def orgAlloc_def)
qed

lemma spawnFood_foodStore_inv:
  assumes "foodStore_inv s" shows "foodStore_inv (snd (spawnFood x y s))"
proof (cases "fFreePtr s < 0")
  case True then show ?thesis using assms by (simp add: spawnFood_def)
next
  case False
  then have p: "0 \<le> fFreePtr s" by simp
  have "pool_inv (MAX_FOOD s) ((fActive s)(fFree s (nat (fFreePtr s)) := True)) (fFree s)
          (fFreePtr s - 1) (foodCount s + 1)"
    using assms p unfolding foodStore_inv_def by (rule pool_pop)
  then show ?thesis using False by (simp add: spawnFood_def Let_def foodStore_inv_def)
qed

lemma spawnFood_orgAlloc: "orgAlloc (snd (spawnFood x y s)) = orgAlloc s"
  by (simp add: spawnFood_def Let_def orgAlloc_def)

lemma killFood_foodStore_inv:
  assumes "foodStore_inv s" "idx < MAX_FOOD s" "fActive s idx"
  shows "foodStore_inv (killFood idx s)"
proof -
  have "pool_inv (MAX_FOOD s) ((fActive s)(idx := False)) ((fFree s)(nat (fFreePtr s + 1) := idx))
          (fFreePtr s + 1) (foodCount s - 1)"
    using assms unfolding foodStore_inv_def by (rule pool_push)
  then show ?thesis by (simp add: killFood_def foodStore_inv_def)
qed

lemma killFood_orgAlloc: "orgAlloc (killFood idx s) = orgAlloc s"
  by (simp add: killFood_def orgAlloc_def)

lemma resetOrg_loop:
  "fold (\<lambda>i s. s\<lparr>oFree := (oFree s)(i := MAX_POP s - 1 - i), oActive := (oActive s)(i := False)\<rparr>) [0..<n] s
   = s\<lparr>oFree := (\<lambda>i. if i < n then MAX_POP s - 1 - i else oFree s i),
       oActive := (\<lambda>i. if i < n then False else oActive s i)\<rparr>"
  (is "fold ?f _ _ = _")
proof (induction n)
  case 0 then show ?case by simp
next
  case (Suc n)
  have step: "fold ?f [0..<Suc n] s = ?f n (fold ?f [0..<n] s)" by simp
  have a: "(\<lambda>i. if i < Suc n then MAX_POP s - 1 - i else oFree s i)
        = (\<lambda>i. if i < n then MAX_POP s - 1 - i else oFree s i)(n := MAX_POP s - 1 - n)"
    by (auto simp add: fun_eq_iff less_Suc_eq)
  have b: "(\<lambda>i. if i < Suc n then False else oActive s i)
        = (\<lambda>i. if i < n then False else oActive s i)(n := False)"
    by (auto simp add: fun_eq_iff less_Suc_eq)
  show ?case unfolding step Suc.IH a b by simp
qed

lemma resetFood_loop:
  "fold (\<lambda>i s. s\<lparr>fFree := (fFree s)(i := MAX_FOOD s - 1 - i), fActive := (fActive s)(i := False)\<rparr>) [0..<n] s
   = s\<lparr>fFree := (\<lambda>i. if i < n then MAX_FOOD s - 1 - i else fFree s i),
       fActive := (\<lambda>i. if i < n then False else fActive s i)\<rparr>"
  (is "fold ?f _ _ = _")
proof (induction n)
  case 0 then show ?case by simp
next
  case (Suc n)
  have step: "fold ?f [0..<Suc n] s = ?f n (fold ?f [0..<n] s)" by simp
  have a: "(\<lambda>i. if i < Suc n then MAX_FOOD s - 1 - i else fFree s i)
        = (\<lambda>i. if i < n then MAX_FOOD s - 1 - i else fFree s i)(n := MAX_FOOD s - 1 - n)"
    by (auto simp add: fun_eq_iff less_Suc_eq)
  have b: "(\<lambda>i. if i < Suc n then False else fActive s i)
        = (\<lambda>i. if i < n then False else fActive s i)(n := False)"
    by (auto simp add: fun_eq_iff less_Suc_eq)
  show ?case unfolding step Suc.IH a b by simp
qed

lemma resetStores_eq:
  "resetStores s =
     s\<lparr>activeCount := 0, foodCount := 0, oFreePtr := int (MAX_POP s) - 1,
       oFree := (\<lambda>i. if i < MAX_POP s then MAX_POP s - 1 - i else oFree s i),
       oActive := (\<lambda>i. if i < MAX_POP s then False else oActive s i),
       fFreePtr := int (MAX_FOOD s) - 1,
       fFree := (\<lambda>i. if i < MAX_FOOD s then MAX_FOOD s - 1 - i else fFree s i),
       fActive := (\<lambda>i. if i < MAX_FOOD s then False else fActive s i)\<rparr>"
  unfolding resetStores_def Let_def resetOrg_loop resetFood_loop by (simp cong: if_cong)

lemma resetStores_inv: "store_inv (resetStores s)"
  by (simp add: resetStores_eq store_inv_def orgStore_inv_def foodStore_inv_def pool_reset)

section \<open>Consistency of the stores under every operation\<close>

lemma funpow_invariant: "(\<And>s. P s \<Longrightarrow> P (f s)) \<Longrightarrow> P s \<Longrightarrow> P ((f ^^ n) s)"
  by (induction n) simp_all

lemma store_inv_cong:
  "orgAlloc s' = orgAlloc s \<Longrightarrow> foodAlloc s' = foodAlloc s \<Longrightarrow> store_inv s' = store_inv s"
  by (simp add: store_inv_def orgStore_inv_def foodStore_inv_def orgAlloc_def foodAlloc_def)

lemma pushZone_allocs: "orgAlloc (pushZone s) = orgAlloc s" "foodAlloc (pushZone s) = foodAlloc s"
  by (simp_all add: pushZone_def Math_random_def orgAlloc_def foodAlloc_def)

lemma clampCamera_frame:
  assumes "\<And>c t. P (t\<lparr>camera := c\<rparr>) = P t"
  shows "P (clampCamera s) = P s"
  by (simp add: clampCamera_def Let_def assms)

lemma clampCamera_allocs:
  "orgAlloc (clampCamera s) = orgAlloc s" "foodAlloc (clampCamera s) = foodAlloc s"
  by (rule clampCamera_frame, simp add: orgAlloc_def foodAlloc_def)+

lemma loadHeader_allocs:
  "orgAlloc (snd (loadHeader d s)) = orgAlloc s" "foodAlloc (snd (loadHeader d s)) = foodAlloc s"
  by (simp_all add: loadHeader_def Let_def orgAlloc_def foodAlloc_def split: option.splits)

lemma pushZone_store_inv: "store_inv (pushZone s) = store_inv s"
  by (rule store_inv_cong) (rule pushZone_allocs)+

lemma clampCamera_store_inv: "store_inv (clampCamera s) = store_inv s"
  by (rule store_inv_cong) (rule clampCamera_allocs)+

lemma loadHeader_store_inv: "store_inv (snd (loadHeader d s)) = store_inv s"
  by (rule store_inv_cong) (rule loadHeader_allocs)+

lemma spawnOrganism_store_inv: "store_inv s \<Longrightarrow> store_inv (snd (spawnOrganism x y p s))"
  by (simp add: store_inv_def spawnOrganism_orgStore_inv spawnOrganism_foodStore_inv)

lemma spawnFood_store_inv: "store_inv s \<Longrightarrow> store_inv (snd (spawnFood x y s))"
  using orgStore_inv_cong [OF spawnFood_orgAlloc, of x y s]
  by (simp add: store_inv_def spawnFood_foodStore_inv)

lemma killOrganism_store_inv:
  "store_inv s \<Longrightarrow> idx < MAX_POP s \<Longrightarrow> oActive s idx \<Longrightarrow> store_inv (killOrganism idx s)"
  using foodStore_inv_cong [OF killOrganism_foodAlloc, of idx s]
  by (simp add: store_inv_def killOrganism_orgStore_inv)

lemma killFood_store_inv:
  "store_inv s \<Longrightarrow> idx < MAX_FOOD s \<Longrightarrow> fActive s idx \<Longrightarrow> store_inv (killFood idx s)"
  using orgStore_inv_cong [OF killFood_orgAlloc, of idx s]
  by (simp add: store_inv_def killFood_foodStore_inv)

lemma Math_random_store_inv: "store_inv (snd (Math_random s)) = store_inv s"
  by (rule store_inv_cong) (simp_all add: Math_random_def orgAlloc_def foodAlloc_def)

lemma getBiasedSpawnPos_allocs:
  "orgAlloc (snd (getBiasedSpawnPos s)) = orgAlloc s"
  "foodAlloc (snd (getBiasedSpawnPos s)) = foodAlloc s"
  unfolding getBiasedSpawnPos_def Math_random_def Let_def split_def orgAlloc_def foodAlloc_def
  by simp_all

lemma spawnRandomFoodStep_store_inv: "store_inv s \<Longrightarrow> store_inv (spawnRandomFoodStep s)"
proof -
  assume a: "store_inv s"
  obtain x y t where g: "getBiasedSpawnPos s = ((x, y), t)"
    by (metis surj_pair)
  have "store_inv t" using a store_inv_cong [of t s] getBiasedSpawnPos_allocs [of s] g by simp
  then show ?thesis by (simp add: spawnRandomFoodStep_def g spawnFood_store_inv)
qed

lemma spawnRandomFood_store_inv: "store_inv s \<Longrightarrow> store_inv (spawnRandomFood amount s)"
  unfolding spawnRandomFood_def by (rule funpow_invariant) (rule spawnRandomFoodStep_store_inv)

lemma spawnRandomOrganism_store_inv: "store_inv s \<Longrightarrow> store_inv (spawnRandomOrganism s)"
proof -
  assume a: "store_inv s"
  have "store_inv (snd (Math_random (snd (Math_random s))))"
    using a by (simp add: Math_random_store_inv)
  then show ?thesis
    by (simp add: spawnRandomOrganism_def split_def spawnOrganism_store_inv)
qed

lemma init_store_inv: "store_inv (init s)"
proof -
  let ?s1 = "(resetStores s)\<lparr>zones := []\<rparr>"
  have 1: "store_inv ?s1"
    using resetStores_inv [of s] store_inv_cong [of ?s1 "resetStores s"]
    by (simp add: orgAlloc_def foodAlloc_def)
  let ?s2 = "(pushZone ^^ nat (targetZoneCount ?s1)) ?s1"
  have 2: "store_inv ?s2" using 1 by (rule funpow_invariant [rotated]) (simp add: pushZone_store_inv)
  let ?s3 = "(spawnRandomOrganism ^^ loopCount (initialPop (config ?s2))) ?s2"
  have 3: "store_inv ?s3"
    using 2 by (rule funpow_invariant [rotated]) (rule spawnRandomOrganism_store_inv)
  let ?s4 = "spawnRandomFood (initialFood (config ?s3)) ?s3"
  have 4: "store_inv ?s4" using 3 by (rule spawnRandomFood_store_inv)
  have 5: "\<And>c. store_inv (?s4\<lparr>camera := c\<rparr>)"
    using 4 store_inv_cong [of "?s4\<lparr>camera := c\<rparr>" ?s4 for c]
    by (simp add: orgAlloc_def foodAlloc_def)
  show ?thesis
    unfolding init_def Let_def using 4 5 by (simp add: clampCamera_store_inv)
qed

lemma loadOrganism_store_inv:
  assumes "store_inv s" "0 \<le> oFreePtr s" shows "store_inv (loadOrganism nan org s)"
proof -
  have "pool_inv (MAX_POP s) ((oActive s)(oFree s (nat (oFreePtr s)) := True)) (oFree s)
          (oFreePtr s - 1) (activeCount s + 1)"
    using assms unfolding store_inv_def orgStore_inv_def by (simp add: pool_pop)
  then show ?thesis using assms(1)
    by (simp add: loadOrganism_def Let_def store_inv_def orgStore_inv_def foodStore_inv_def)
qed

lemma loadOrganisms_store_inv: "store_inv s \<Longrightarrow> store_inv (loadOrganisms nan orgs s)"
  by (induction orgs arbitrary: s) (simp_all add: loadOrganism_store_inv)

lemma loadFoodItem_store_inv:
  assumes "store_inv s" "0 \<le> fFreePtr s" shows "store_inv (loadFoodItem nan f s)"
proof -
  have "pool_inv (MAX_FOOD s) ((fActive s)(fFree s (nat (fFreePtr s)) := True)) (fFree s)
          (fFreePtr s - 1) (foodCount s + 1)"
    using assms unfolding store_inv_def foodStore_inv_def by (simp add: pool_pop)
  then show ?thesis using assms(1)
    by (simp add: loadFoodItem_def Let_def store_inv_def orgStore_inv_def foodStore_inv_def)
qed

lemma loadFood_store_inv: "store_inv s \<Longrightarrow> store_inv (loadFood nan fs s)"
  by (induction fs arbitrary: s) (simp_all add: loadFoodItem_store_inv)

lemma loadEntities_store_inv: "store_inv s \<Longrightarrow> store_inv (snd (loadEntities nan d s))"
  by (simp add: loadEntities_def Let_def loadOrganisms_store_inv loadFood_store_inv
      split: option.splits)

lemma importState_store_inv: "store_inv (snd (importState nan d s))"
proof -
  obtain e h where h: "loadHeader d (resetStores s) = (e, h)" by (cases "loadHeader d (resetStores s)")
  have i: "store_inv h"
    using loadHeader_store_inv [of d "resetStores s"] by (simp add: h resetStores_inv)
  obtain e' t where t: "loadEntities nan d h = (e', t)" by (cases "loadEntities nan d h")
  have "store_inv t" using loadEntities_store_inv [OF i, of nan d] by (simp add: t)
  then show ?thesis
    using i by (simp add: importState_def h t clampCamera_store_inv split: option.splits)
qed

lemma store_inv_counts:
  assumes "store_inv s"
  shows "activeCount s = int (activeSlots s)" "freeSlots s = int (MAX_POP s) - activeCount s"
    "foodCount s = int (activeFoodSlots s)" "freeFoodSlots s = int (MAX_FOOD s) - foodCount s"
  using assms pool_counts [of "MAX_POP s" "oActive s" "oFree s" "oFreePtr s" "activeCount s"]
    pool_counts [of "MAX_FOOD s" "fActive s" "fFree s" "fFreePtr s" "foodCount s"]
  by (simp_all add: store_inv_def orgStore_inv_def foodStore_inv_def activeSlots_def
      activeFoodSlots_def freeSlots_def freeFoodSlots_def)

lemma blankEngine_store_inv: "store_inv (blankEngine z mp mf mg c w h rnd)"
  by (simp add: blankEngine_def store_inv_def orgStore_inv_def foodStore_inv_def pool_reset)

section \<open>The example states\<close>

lemma seededEngine_allocs:
  "orgAlloc seededEngine = (2, (\<lambda>_. False)(0 := True), oFree tinyEngine, 0, 1)"
  "foodAlloc seededEngine = (2, (\<lambda>_. False)(0 := True), fFree tinyEngine, 0, 1)"
proof -
  have p: "0 \<le> oFreePtr tinyEngine" by (simp add: tinyEngine_def blankEngine_def)
  let ?t = "snd (spawnOrganism 10 20 (- 1) tinyEngine)"
  have o: "orgAlloc ?t = (2, (\<lambda>_. False)(0 := True), oFree tinyEngine, 0, 1)"
    unfolding spawnOrganism_orgAlloc [OF p] by (simp add: tinyEngine_def blankEngine_def)
  have f: "foodAlloc ?t = foodAlloc tinyEngine" by (rule spawnOrganism_foodAlloc)
  show "orgAlloc seededEngine = (2, (\<lambda>_. False)(0 := True), oFree tinyEngine, 0, 1)"
    unfolding seededEngine_def spawnFood_orgAlloc by (rule o)
  have "foodAlloc tinyEngine = (2, (\<lambda>_. False), fFree tinyEngine, 1, 0)"
    by (simp add: foodAlloc_def tinyEngine_def blankEngine_def)
  then have "foodAlloc ?t = (2, (\<lambda>_. False), fFree tinyEngine, 1, 0)" using f by simp
  then have g: "MAX_FOOD ?t = 2" "fActive ?t = (\<lambda>_. False)" "fFree ?t = fFree tinyEngine"
    "fFreePtr ?t = 1" "foodCount ?t = 0"
    by (simp_all add: foodAlloc_def)
  have "fFree tinyEngine (Suc 0) = 0" by (simp add: tinyEngine_def blankEngine_def)
  then show "foodAlloc seededEngine = (2, (\<lambda>_. False)(0 := True), fFree tinyEngine, 0, 1)"
    unfolding seededEngine_def by (simp add: spawnFood_def Let_def foodAlloc_def g)
qed

lemma tinyEngine_store_inv: "store_inv tinyEngine"
  unfolding tinyEngine_def by (rule blankEngine_store_inv)

lemma seededEngine_store_inv: "store_inv seededEngine"
  unfolding seededEngine_def
  by (intro spawnFood_store_inv spawnOrganism_store_inv tinyEngine_store_inv)

lemma seededEngine_fields:
  "MAX_POP seededEngine = 2" "oActive seededEngine 0" "\<not> oActive seededEngine (Suc 0)"
  "oFreePtr seededEngine = 0" "activeCount seededEngine = 1"
  "MAX_FOOD seededEngine = 2" "fActive seededEngine 0" "\<not> fActive seededEngine (Suc 0)"
  "fFreePtr seededEngine = 0" "foodCount seededEngine = 1"
  using seededEngine_allocs by (simp_all add: orgAlloc_def foodAlloc_def)

lemma fullEngine_allocs:
  "orgAlloc fullEngine = (1, (\<lambda>_. False)(0 := True), (\<lambda>i. 0), - 1, 1)"
  "foodAlloc fullEngine = (1, (\<lambda>_. False)(0 := True), (\<lambda>i. 0), - 1, 1)"
proof -
  have p: "0 \<le> oFreePtr unitEngine" by (simp add: unitEngine_def blankEngine_def)
  let ?t = "snd (spawnOrganism 10 20 (- 1) unitEngine)"
  have o: "orgAlloc ?t = (1, (\<lambda>_. False)(0 := True), (\<lambda>i. 0), - 1, 1)"
    unfolding spawnOrganism_orgAlloc [OF p]
    by (auto simp add: unitEngine_def blankEngine_def fun_eq_iff)
  show "orgAlloc fullEngine = (1, (\<lambda>_. False)(0 := True), (\<lambda>i. 0), - 1, 1)"
    unfolding fullEngine_def spawnFood_orgAlloc by (rule o)
  have "foodAlloc ?t = foodAlloc unitEngine" by (rule spawnOrganism_foodAlloc)
  moreover have "foodAlloc unitEngine = (1, (\<lambda>_. False), (\<lambda>i. 0), 0, 0)"
    by (auto simp add: foodAlloc_def unitEngine_def blankEngine_def fun_eq_iff)
  ultimately have g: "MAX_FOOD ?t = 1" "fActive ?t = (\<lambda>_. False)" "fFree ?t = (\<lambda>i. 0)"
    "fFreePtr ?t = 0" "foodCount ?t = 0"
    by (simp_all add: foodAlloc_def)
  show "foodAlloc fullEngine = (1, (\<lambda>_. False)(0 := True), (\<lambda>i. 0), - 1, 1)"
    unfolding fullEngine_def by (simp add: spawnFood_def Let_def foodAlloc_def g)
qed

lemma unitEngine_store_inv: "store_inv unitEngine"
  unfolding unitEngine_def by (rule blankEngine_store_inv)

lemma fullEngine_store_inv: "store_inv fullEngine"
  unfolding fullEngine_def
  by (intro spawnFood_store_inv spawnOrganism_store_inv unitEngine_store_inv)

lemma fullEngine_fields:
  "MAX_POP fullEngine = 1" "oActive fullEngine 0" "oFreePtr fullEngine = - 1"
  "activeCount fullEngine = 1"
  "MAX_FOOD fullEngine = 1" "fActive fullEngine 0" "fFreePtr fullEngine = - 1"
  "foodCount fullEngine = 1"
  using fullEngine_allocs by (simp_all add: orgAlloc_def foodAlloc_def)

section \<open>What spawning leaves alone; zone counts\<close>

lemma spawnOrganism_frame:
  assumes "\<And>f t. P (oX_update f t) = P t" "\<And>f t. P (oY_update f t) = P t"
    "\<And>f t. P (oVX_update f t) = P t" "\<And>f t. P (oVY_update f t) = P t"
    "\<And>f t. P (oEnergy_update f t) = P t"
    "\<And>f t. P (gSpeed_update f t) = P t" "\<And>f t. P (gSize_update f t) = P t"
    "\<And>f t. P (gSense_update f t) = P t" "\<And>f t. P (gRepro_update f t) = P t"
    "\<And>f t. P (gWander_update f t) = P t" "\<And>f t. P (gDefense_update f t) = P t"
    "\<And>f t. P (gMeta_update f t) = P t" "\<And>f t. P (gHue_update f t) = P t"
    "\<And>f t. P (oActive_update f t) = P t" "\<And>f t. P (oFreePtr_update f t) = P t"
    "\<And>f t. P (activeCount_update f t) = P t" "\<And>f t. P (drawn_update f t) = P t"
  shows "P (snd (spawnOrganism x y p s)) = P s"
proof -
  have "\<And>k t. P (initOrganism x y p k t) = P t"
    by (rule initOrganism_frame) (simp_all add: assms)
  then show ?thesis
    by (simp add: spawnOrganism_def allocOrganism_def Let_def split_def assms)
qed

lemma spawnOrganism_zones: "zones (snd (spawnOrganism x y p s)) = zones s"
  by (rule spawnOrganism_frame) simp_all

lemma spawnRandomOrganism_zones: "zones (spawnRandomOrganism s) = zones s"
  by (simp add: spawnRandomOrganism_def split_def spawnOrganism_zones Math_random_def)

lemma getBiasedSpawnPos_zones: "zones (snd (getBiasedSpawnPos s)) = zones s"
  unfolding getBiasedSpawnPos_def Math_random_def Let_def split_def by simp

lemma spawnRandomFoodStep_zones: "zones (spawnRandomFoodStep s) = zones s"
  using getBiasedSpawnPos_zones [of s]
  by (simp add: spawnRandomFoodStep_def split_def spawnFood_def Let_def)

lemma funpow_frame: "(\<And>s. P (f s) = P s) \<Longrightarrow> P ((f ^^ n) s) = P s"
  by (induction n) simp_all

lemma pushZone_length: "length (zones (pushZone s)) = Suc (length (zones s))"
  by (simp add: pushZone_def Math_random_def)

lemma pushZone_funpow_length: "length (zones ((pushZone ^^ n) s)) = n + length (zones s)"
  by (induction n) (simp_all add: pushZone_length)

lemma driftZones_length: "length (fst (driftZones zs s)) = length zs"
  by (induction zs arbitrary: s) (simp_all add: split_def)

lemma clampCamera_zones: "zones (clampCamera s) = zones s"
  by (rule clampCamera_frame) simp

lemma init_zones_length: "length (zones (init s)) = nat (targetZoneCount s)"
proof -
  let ?s1 = "(resetStores s)\<lparr>zones := []\<rparr>"
  have t: "targetZoneCount ?s1 = targetZoneCount s"
    by (simp add: targetZoneCount_def resetStores_eq)
  let ?s2 = "(pushZone ^^ nat (targetZoneCount ?s1)) ?s1"
  have 2: "length (zones ?s2) = nat (targetZoneCount s)"
    by (simp add: pushZone_funpow_length t)
  let ?s3 = "(spawnRandomOrganism ^^ loopCount (initialPop (config ?s2))) ?s2"
  have 3: "zones ?s3 = zones ?s2" by (rule funpow_frame) (rule spawnRandomOrganism_zones)
  let ?s4 = "spawnRandomFood (initialFood (config ?s3)) ?s3"
  have 4: "zones ?s4 = zones ?s3"
    unfolding spawnRandomFood_def by (rule funpow_frame) (rule spawnRandomFoodStep_zones)
  have "zones (init s) = zones ?s4"
    unfolding init_def Let_def by (simp add: clampCamera_zones)
  then show ?thesis using 2 3 4 by simp
qed

lemma updateEnvironment_zones_length:
  "length (zones (updateEnvironment s)) =
     (if activeZones s
      then (if int (length (zones s)) < targetZoneCount s then Suc (length (zones s))
            else length (zones s))
      else 0)"
  by (simp add: updateEnvironment_def Let_def split_def driftZones_length pushZone_length)

section \<open>Rounding to single precision\<close>

text \<open>Rounding is odd and monotone, so a value between two bounds is stored between the
  stored bounds.\<close>

lemma roundEven_of_int: "roundEven (of_int n) = n"
  by (simp add: roundEven_def)

lemma roundEven_mono: assumes "y \<le> z" shows "roundEven y \<le> roundEven z"
proof -
  have f: "\<lfloor>y\<rfloor> \<le> \<lfloor>z\<rfloor>" using assms by (rule floor_mono)
  show ?thesis
  proof (cases "\<lfloor>y\<rfloor> = \<lfloor>z\<rfloor>")
    case True
    then show ?thesis using assms by (auto simp add: roundEven_def Let_def)
  next
    case False
    then have "\<lfloor>y\<rfloor> + 1 \<le> \<lfloor>z\<rfloor>" using f by simp
    moreover have "roundEven y \<le> \<lfloor>y\<rfloor> + 1" by (simp add: roundEven_def Let_def)
    moreover have "\<lfloor>z\<rfloor> \<le> roundEven z" by (simp add: roundEven_def Let_def)
    ultimately show ?thesis by linarith
  qed
qed

lemma roundEven_minus: "roundEven (- y) = - roundEven y"
proof (cases "y = of_int \<lfloor>y\<rfloor>")
  case True
  then obtain n where "y = of_int n" by metis
  then show ?thesis using roundEven_of_int [of "- n"] roundEven_of_int [of n] by simp
next
  case False
  then have c: "\<lfloor>- y\<rfloor> = - \<lfloor>y\<rfloor> - 1" by linarith
  have lt: "of_int \<lfloor>y\<rfloor> < y" using False by linarith
  show ?thesis unfolding roundEven_def Let_def c by (auto simp add: algebra_simps)
qed

lemma exponent32_upper: assumes "x \<noteq> 0" shows "\<bar>x\<bar> < 2 powi (exponent32 x + 1)"
proof -
  have p: "0 < \<bar>x\<bar>" using assms by simp
  have "log 2 \<bar>x\<bar> < of_int (\<lfloor>log 2 \<bar>x\<bar>\<rfloor> + 1)" by linarith
  also have "\<dots> \<le> of_int (exponent32 x + 1)" by (simp add: exponent32_def)
  finally have "log 2 \<bar>x\<bar> < of_int (exponent32 x + 1)" .
  then have "\<bar>x\<bar> < 2 powr of_int (exponent32 x + 1)" using p by (subst (asm) log_less_iff) simp_all
  moreover have "(2::real) powr of_int (exponent32 x + 1) = 2 powi (exponent32 x + 1)"
    by (rule powr_real_of_int') simp_all
  ultimately show ?thesis by (simp only:)
qed

lemma exponent32_lower:
  assumes "x \<noteq> 0" "- 126 < exponent32 x" shows "2 powi exponent32 x \<le> \<bar>x\<bar>"
proof -
  have p: "0 < \<bar>x\<bar>" using assms by simp
  have e: "exponent32 x = \<lfloor>log 2 \<bar>x\<bar>\<rfloor>" using assms(2) by (simp add: exponent32_def max_def split: if_splits)
  have "of_int (exponent32 x) \<le> log 2 \<bar>x\<bar>" unfolding e by simp
  then have "2 powr of_int (exponent32 x) \<le> \<bar>x\<bar>" using p by (subst (asm) le_log_iff) simp_all
  moreover have "(2::real) powr of_int (exponent32 x) = 2 powi (exponent32 x)"
    by (rule powr_real_of_int') simp_all
  ultimately show ?thesis by (simp only:)
qed

lemma exponent32_mono:
  assumes "0 < \<bar>x\<bar>" "\<bar>x\<bar> \<le> \<bar>y\<bar>" shows "exponent32 x \<le> exponent32 y"
proof -
  have "log 2 \<bar>x\<bar> \<le> log 2 \<bar>y\<bar>" using assms by simp
  then have "\<lfloor>log 2 \<bar>x\<bar>\<rfloor> \<le> \<lfloor>log 2 \<bar>y\<bar>\<rfloor>" by (rule floor_mono)
  then show ?thesis by (simp add: exponent32_def)
qed

lemma exponent32_eq:
  assumes "2 powi k \<le> \<bar>x\<bar>" "\<bar>x\<bar> < 2 powi (k + 1)" "- 126 \<le> k"
  shows "exponent32 x = k"
proof -
  have "(0::real) < 2 powi k" by simp
  then have p: "0 < \<bar>x\<bar>" using assms(1) by linarith
  have q: "(2::real) powr of_int k = 2 powi k"
    by (rule powr_real_of_int') simp_all
  have q': "(2::real) powr of_int (k + 1) = 2 powi (k + 1)"
    by (rule powr_real_of_int') simp_all
  have "2 powr of_int k \<le> \<bar>x\<bar>" "\<bar>x\<bar> < 2 powr of_int (k + 1)"
    unfolding q q' using assms by (simp_all only:)
  then have "of_int k \<le> log 2 \<bar>x\<bar>" "log 2 \<bar>x\<bar> < of_int (k + 1)"
    using p by (subst le_log_iff, simp_all)  (subst log_less_iff, simp_all)
  then have "\<lfloor>log 2 \<bar>x\<bar>\<rfloor> = k" by linarith
  then show ?thesis using assms(3) by (simp add: exponent32_def)
qed

lemma ulp32_pos: "0 < ulp32 x" by (simp add: ulp32_def)

lemma ulp32_minus: "ulp32 (- x) = ulp32 x" by (simp add: ulp32_def exponent32_def)

lemma fround_minus: "fround (- x) = - fround x"
  by (simp add: fround_def ulp32_minus roundEven_minus)

lemma fround_0: "fround 0 = 0" by (simp add: fround_def)

lemma fround_nonneg: assumes "0 \<le> x" shows "0 \<le> fround x"
proof (cases "x = 0")
  case True then show ?thesis by (simp add: fround_0)
next
  case False
  have "0 \<le> x / ulp32 x" using assms ulp32_pos [of x] by simp
  then have "roundEven 0 \<le> roundEven (x / ulp32 x)" by (rule roundEven_mono)
  then have "0 \<le> roundEven (x / ulp32 x)" using roundEven_of_int [of 0] by simp
  then show ?thesis using False ulp32_pos [of x] by (simp add: fround_def)
qed

lemma fround_binade_upper:
  assumes "0 < x" shows "fround x \<le> 2 powi (exponent32 x + 1)"
proof -
  let ?u = "ulp32 x"
  have x: "x \<noteq> 0" using assms by simp
  have "x < 2 powi (exponent32 x + 1)" using exponent32_upper [OF x] assms by simp
  moreover have s: "2 powi (exponent32 x + 1) = ?u * 2 ^ 24"
    by (simp add: ulp32_def power_int_add power_int_diff)
  ultimately have "x / ?u \<le> of_int (2 ^ 24)" using ulp32_pos [of x]
    by (simp add: field_simps)
  then have "roundEven (x / ?u) \<le> roundEven (of_int (2 ^ 24))" by (rule roundEven_mono)
  then have "roundEven (x / ?u) \<le> 2 ^ 24" unfolding roundEven_of_int .
  then have "of_int (roundEven (x / ?u)) \<le> (2 ^ 24 :: real)"
    using of_int_le_iff [where 'a = real, of "roundEven (x / ?u)" "2 ^ 24"] by simp
  then have "?u * of_int (roundEven (x / ?u)) \<le> ?u * 2 ^ 24"
    using ulp32_pos [of x] by (intro mult_left_mono) simp_all
  then show ?thesis unfolding s using x by (simp add: fround_def)
qed

lemma fround_binade_lower:
  assumes "0 < x" "- 126 < exponent32 x" shows "2 powi exponent32 x \<le> fround x"
proof -
  let ?u = "ulp32 x"
  have x: "x \<noteq> 0" using assms by simp
  have "2 powi exponent32 x \<le> x" using exponent32_lower [OF x assms(2)] assms(1) by simp
  moreover have s: "2 powi exponent32 x = ?u * 2 ^ 23"
    by (simp add: ulp32_def power_int_add power_int_diff)
  ultimately have "of_int (2 ^ 23) \<le> x / ?u" using ulp32_pos [of x]
    by (simp add: field_simps)
  then have "roundEven (of_int (2 ^ 23)) \<le> roundEven (x / ?u)" by (rule roundEven_mono)
  then have "2 ^ 23 \<le> roundEven (x / ?u)" unfolding roundEven_of_int .
  then have "(2 ^ 23 :: real) \<le> of_int (roundEven (x / ?u))"
    using of_int_le_iff [where 'a = real, of "2 ^ 23" "roundEven (x / ?u)"] by simp
  then have "?u * 2 ^ 23 \<le> ?u * of_int (roundEven (x / ?u))"
    using ulp32_pos [of x] by (intro mult_left_mono) simp_all
  then show ?thesis unfolding s using x by (simp add: fround_def)
qed

lemma fround_mono_pos:
  assumes "0 < x" "x \<le> y" shows "fround x \<le> fround y"
proof -
  have y: "0 < y" using assms by simp
  have e: "exponent32 x \<le> exponent32 y" using assms by (intro exponent32_mono) simp_all
  show ?thesis
  proof (cases "exponent32 x = exponent32 y")
    case True
    then have u: "ulp32 y = ulp32 x" by (simp add: ulp32_def)
    have "x / ulp32 x \<le> y / ulp32 x" using assms(2) ulp32_pos [of x] by (simp add: divide_right_mono)
    then have "roundEven (x / ulp32 x) \<le> roundEven (y / ulp32 x)" by (rule roundEven_mono)
    then have "ulp32 x * of_int (roundEven (x / ulp32 x)) \<le> ulp32 x * of_int (roundEven (y / ulp32 x))"
      using ulp32_pos [of x] by (intro mult_left_mono) simp_all
    then show ?thesis using assms(1) y by (simp add: fround_def u)
  next
    case False
    then have lt: "exponent32 x + 1 \<le> exponent32 y" using e by simp
    have "- 126 \<le> exponent32 x" by (simp add: exponent32_def)
    then have "- 126 < exponent32 y" using lt by simp
    then have "2 powi exponent32 y \<le> fround y" using y by (intro fround_binade_lower)
    moreover have "fround x \<le> 2 powi (exponent32 x + 1)" using assms(1) by (rule fround_binade_upper)
    moreover have "(2::real) powi (exponent32 x + 1) \<le> 2 powi exponent32 y"
      using lt by (intro power_int_increasing) simp_all
    ultimately show ?thesis by linarith
  qed
qed

lemma fround_mono: assumes "x \<le> y" shows "fround x \<le> fround y"
proof -
  consider "0 < x" | "x \<le> 0" "0 \<le> y" | "y < 0" by linarith
  then show ?thesis
  proof cases
    case 1 then show ?thesis using assms by (rule fround_mono_pos)
  next
    case 2
    have "0 \<le> fround (- x)" using 2 by (intro fround_nonneg) simp
    then have "fround x \<le> 0" by (simp add: fround_minus)
    moreover have "0 \<le> fround y" using 2 by (intro fround_nonneg)
    ultimately show ?thesis by linarith
  next
    case 3
    have "fround (- y) \<le> fround (- x)" using 3 assms by (intro fround_mono_pos) simp_all
    then show ?thesis by (simp add: fround_minus)
  qed
qed

text \<open>A number \<open>m * 2 ^ (k - 23)\<close> with an integer \<open>m\<close> of magnitude in
  \<open>[2 ^ 23, 2 ^ 24)\<close> is a single-precision number: storing it changes nothing.\<close>

lemma fround_exact:
  assumes "x = of_int m * 2 powi (k - 23)" "2 ^ 23 \<le> \<bar>m\<bar>" "\<bar>m\<bar> < 2 ^ 24" "- 126 \<le> k"
  shows "fround x = x"
proof -
  have a: "\<bar>x\<bar> = of_int \<bar>m\<bar> * 2 powi (k - 23)" by (simp add: assms(1) abs_mult)
  have "(2::real) powi k = 2 ^ 23 * 2 powi (k - 23)" by (simp add: power_int_diff)
  also have "\<dots> \<le> of_int \<bar>m\<bar> * 2 powi (k - 23)"
  proof (rule mult_right_mono)
    show "(2 ^ 23 :: real) \<le> of_int \<bar>m\<bar>"
      using assms(2) of_int_le_iff [where 'a = real, of "2 ^ 23" "\<bar>m\<bar>"] by simp
  qed simp
  finally have l: "2 powi k \<le> \<bar>x\<bar>" unfolding a .
  have "of_int \<bar>m\<bar> * (2::real) powi (k - 23) < 2 ^ 24 * 2 powi (k - 23)"
  proof (rule mult_strict_right_mono)
    show "of_int \<bar>m\<bar> < (2 ^ 24 :: real)"
      using assms(3) of_int_less_iff [where 'a = real, of "\<bar>m\<bar>" "2 ^ 24"] by simp
  qed simp
  also have "\<dots> = 2 powi (k + 1)" by (simp add: power_int_diff power_int_add)
  finally have u: "\<bar>x\<bar> < 2 powi (k + 1)" unfolding a .
  have e: "exponent32 x = k" using l u assms(4) by (rule exponent32_eq)
  have w: "ulp32 x = 2 powi (k - 23)" unfolding ulp32_def e ..
  have d: "x / 2 powi (k - 23) = of_int m" by (simp add: assms(1))
  have "(0::real) < 2 powi k" by simp
  then have "x \<noteq> 0" using l by linarith
  then have "fround x = ulp32 x * of_int (roundEven (x / ulp32 x))" by (simp add: fround_def)
  also have "\<dots> = 2 powi (k - 23) * of_int m" by (simp only: w d roundEven_of_int)
  also have "\<dots> = x" by (simp add: assms(1))
  finally show ?thesis .
qed


lemma fround_eval:
  assumes "2 powi k \<le> \<bar>x\<bar>" "\<bar>x\<bar> < 2 powi (k + 1)" "- 126 \<le> k"
  shows "fround x = 2 powi (k - 23) * of_int (roundEven (x / 2 powi (k - 23)))"
proof -
  have e: "exponent32 x = k" using assms by (rule exponent32_eq)
  have "(0::real) < 2 powi k" by simp
  then have "x \<noteq> 0" using assms(1) by linarith
  then show ?thesis by (simp add: fround_def ulp32_def e)
qed

lemma fround_bounds:
  "fround (1 / 2) = 1 / 2" "fround 1 = 1" "fround 2 = 2" "fround 3 = 3" "fround 4 = 4" "fround 8 = 8" "fround 20 = 20" "fround 30 = 30" "fround 100 = 100" "fround 300 = 300" "fround 2500 = 2500" "fround 360 = 360"
proof -
  show "fround (1 / 2) = 1 / 2"
    by (rule fround_exact [where m = "2 ^ 23" and k = "- 1"]) simp_all
  show "fround 1 = 1"
    by (rule fround_exact [where m = "2 ^ 23" and k = "0"]) simp_all
  show "fround 2 = 2"
    by (rule fround_exact [where m = "2 ^ 23" and k = "1"]) simp_all
  show "fround 3 = 3"
    by (rule fround_exact [where m = "3 * 2 ^ 22" and k = "1"]) simp_all
  show "fround 4 = 4"
    by (rule fround_exact [where m = "2 ^ 23" and k = "2"]) simp_all
  show "fround 8 = 8"
    by (rule fround_exact [where m = "2 ^ 23" and k = "3"]) simp_all
  show "fround 20 = 20"
    by (rule fround_exact [where m = "20 * 2 ^ 19" and k = "4"]) simp_all
  show "fround 30 = 30"
    by (rule fround_exact [where m = "30 * 2 ^ 19" and k = "4"]) simp_all
  show "fround 100 = 100"
    by (rule fround_exact [where m = "100 * 2 ^ 17" and k = "6"]) simp_all
  show "fround 300 = 300"
    by (rule fround_exact [where m = "300 * 2 ^ 15" and k = "8"]) simp_all
  show "fround 2500 = 2500"
    by (rule fround_exact [where m = "2500 * 2 ^ 12" and k = "11"]) simp_all
  show "fround 360 = 360"
    by (rule fround_exact [where m = "360 * 2 ^ 15" and k = "8"]) simp_all
qed

lemma fround_twentieth: "fround (1 / 20) = 13421773 / 2 ^ 28"
proof -
  have "fround (1 / 20) = 2 powi (- 5 - 23) * of_int (roundEven (1 / 20 / 2 powi (- 5 - 23)))"
    by (rule fround_eval) simp_all
  also have "roundEven (1 / 20 / 2 powi (- 5 - 23)) = 13421773"
    by (simp add: roundEven_def Let_def power_int_minus)
  finally show ?thesis by (simp add: power_int_minus)
qed




lemma fround_range:
  assumes "lo \<le> v" "v \<le> hi" "lo' \<le> fround lo" "fround hi \<le> hi'"
  shows "lo' \<le> fround v" "fround v \<le> hi'"
  using fround_mono [OF assms(1)] fround_mono [OF assms(2)] assms(3,4) by linarith+

section \<open>Mutation and clamping\<close>










text \<open>A random spawn stores traits within the ranges, and a hue of \<open>[0, 360]\<close>.\<close>

lemma randomTraits_in_range:
  assumes "randomInUnit s"
  shows "clampedInRange (randomTraits idx s) idx"
    and "0 \<le> gHue (randomTraits idx s) idx" and "gHue (randomTraits idx s) idx \<le> 360"
proof -
  have r: "\<And>n. 0 \<le> random s n" "\<And>n. random s n \<le> 1"
    using assms by (simp_all add: randomInUnit_def less_imp_le)
  have b: "\<And>lo hi v. lo \<le> v \<Longrightarrow> v \<le> hi \<Longrightarrow> lo \<le> fround lo \<Longrightarrow> fround hi \<le> hi
             \<Longrightarrow> lo \<le> fround v \<and> fround v \<le> hi"
    using fround_range by blast
  have 1: "1 / 2 \<le> fround (random s (drawn s) * 2 + 3 / 2) \<and> fround (random s (drawn s) * 2 + 3 / 2) \<le> 8"
    using r(1) [of "drawn s"] r(2) [of "drawn s"] by (intro b) (simp_all add: fround_bounds)
  have 2: "4 \<le> fround (random s (Suc (drawn s)) * 8 + 5) \<and> fround (random s (Suc (drawn s)) * 8 + 5) \<le> 30"
    using r(1) [of "Suc (drawn s)"] r(2) [of "Suc (drawn s)"] by (intro b) (simp_all add: fround_bounds)
  have 3: "20 \<le> fround (random s (Suc (Suc (drawn s))) * 80 + 40) \<and>
           fround (random s (Suc (Suc (drawn s))) * 80 + 40) \<le> 300"
    using r(1) [of "Suc (Suc (drawn s))"] r(2) [of "Suc (Suc (drawn s))"]
    by (intro b) (simp_all add: fround_bounds)
  have 4: "100 \<le> fround (random s (Suc (Suc (Suc (drawn s)))) * 1900 + 100) \<and>
           fround (random s (Suc (Suc (Suc (drawn s)))) * 1900 + 100) \<le> 2500"
    using r(1) [of "Suc (Suc (Suc (drawn s)))"] r(2) [of "Suc (Suc (Suc (drawn s)))"]
    by (intro b) (simp_all add: fround_bounds)
  have 5: "1 / 20 \<le> fround (random s (Suc (Suc (Suc (Suc (drawn s))))) * (1 / 2) + 1 / 10) \<and>
           fround (random s (Suc (Suc (Suc (Suc (drawn s))))) * (1 / 2) + 1 / 10) \<le> 2"
    using r(1) [of "Suc (Suc (Suc (Suc (drawn s))))"] r(2) [of "Suc (Suc (Suc (Suc (drawn s))))"]
    by (intro b) (simp_all add: fround_bounds fround_twentieth)
  have 6: "0 \<le> fround (random s (Suc (Suc (Suc (Suc (Suc (drawn s)))))) * (1 / 10)) \<and>
           fround (random s (Suc (Suc (Suc (Suc (Suc (drawn s)))))) * (1 / 10)) \<le> 1"
    using r(1) [of "Suc (Suc (Suc (Suc (Suc (drawn s)))))"] r(2) [of "Suc (Suc (Suc (Suc (Suc (drawn s)))))"]
    by (intro b) (simp_all add: fround_bounds fround_0)
  have 7: "0 \<le> fround (random s (Suc (Suc (Suc (Suc (Suc (Suc (drawn s))))))) * 360) \<and>
           fround (random s (Suc (Suc (Suc (Suc (Suc (Suc (drawn s))))))) * 360) \<le> 360"
    using r(1) [of "Suc (Suc (Suc (Suc (Suc (Suc (drawn s))))))"]
      r(2) [of "Suc (Suc (Suc (Suc (Suc (Suc (drawn s))))))"]
    by (intro b) (simp_all add: fround_bounds fround_0)
  show "clampedInRange (randomTraits idx s) idx"
    using 1 2 3 4 5 6 by (simp add: clampedInRange_def randomTraits_def Math_random_def fround_bounds)
  show "0 \<le> gHue (randomTraits idx s) idx" "gHue (randomTraits idx s) idx \<le> 360"
    using 7 by (simp_all add: randomTraits_def Math_random_def)
qed












section \<open>Velocity cap and toroidal wrap\<close>








section \<open>One attack\<close>

lemma killOrganism_fields:
  "oEnergy (killOrganism idx s) = oEnergy s" "gridNext (killOrganism idx s) = gridNext s"
  "MAX_POP (killOrganism idx s) = MAX_POP s"
  "oActive (killOrganism idx s) = (oActive s)(idx := False)"
  "activeCount (killOrganism idx s) = activeCount s - 1"
  by (simp_all add: killOrganism_def Let_def)

lemma attack_hit:
  assumes "other \<noteq> i" "oActive s other"
    "gSize s i > gSize s other * predatorSizeAdvantage (config s)"
    "getWrappedDistSq s (oX s i) (oY s i) (oX s other) (oY s other) < gSize s i * gSize s i"
  shows "attack i other s =
           killOrganism other
             (s\<lparr>oEnergy := (oEnergy s)(i :=
                  min (gRepro s i * 1.5)
                      (oEnergy s i - gDefense s other * 30 + oEnergy s other + gSize s other * 5))\<rparr>)"
  using assms by (simp add: attack_def Let_def getWrappedDistSq_def)

lemma attack_miss:
  assumes "\<not> (other \<noteq> i \<and> oActive s other \<and>
     gSize s i > gSize s other * predatorSizeAdvantage (config s) \<and>
     getWrappedDistSq s (oX s i) (oY s i) (oX s other) (oY s other) < gSize s i * gSize s i)"
  shows "attack i other s = s"
  using assms by (auto simp add: attack_def Let_def)

lemma attack_gridNext: "gridNext (attack i other s) = gridNext s"
  by (simp add: attack_def Let_def killOrganism_fields)

lemma attack_MAX_POP: "MAX_POP (attack i other s) = MAX_POP s"
  by (simp add: attack_def Let_def killOrganism_fields)

lemma predationLoop_single:
  assumes "other < MAX_POP s" "gridNext s other = - 1"
  shows "predationLoop i (int other) s = Some (attack i other s)"
proof -
  have "predationLoop i (int other) s = predationLoop i (- 1) (attack i other s)"
    using assms by (subst predationLoop.simps) (simp add: attack_gridNext Let_def)
  also have "\<dots> = Some (attack i other s)" by (subst predationLoop.simps) simp
  finally show ?thesis .
qed

section \<open>The spawning loop of reproduction\<close>

lemma totalEnergy_sum:
  "totalEnergy s = sum (oEnergy s) {j. j < MAX_POP s \<and> oActive s j}"
proof -
  have "distinct (filter (oActive s) [0..<MAX_POP s])" by simp
  then have "sum_list (map (oEnergy s) (filter (oActive s) [0..<MAX_POP s]))
               = sum (oEnergy s) (set (filter (oActive s) [0..<MAX_POP s]))"
    by (rule sum_list_distinct_conv_sum_set)
  moreover have "set (filter (oActive s) [0..<MAX_POP s]) = {j. j < MAX_POP s \<and> oActive s j}"
    by auto
  ultimately show ?thesis by (simp add: totalEnergy_def)
qed

lemma totalEnergy_activate:
  assumes "MAX_POP t = MAX_POP s" "oActive t = (oActive s)(idx := True)"
    "oEnergy t = (oEnergy s)(idx := e)" "idx < MAX_POP s" "\<not> oActive s idx"
  shows "totalEnergy t = totalEnergy s + e"
proof -
  let ?A = "{j. j < MAX_POP s \<and> oActive s j}"
  have A: "{j. j < MAX_POP t \<and> oActive t j} = insert idx ?A" using assms by auto
  have n: "idx \<notin> ?A" using assms(5) by simp
  have f: "finite ?A" by simp
  have "sum (oEnergy t) (insert idx ?A) = oEnergy t idx + sum (oEnergy t) ?A"
    using f n by (rule sum.insert)
  moreover have "sum (oEnergy t) ?A = sum (oEnergy s) ?A"
    using n by (intro sum.cong) (auto simp add: assms(3))
  ultimately show ?thesis by (simp add: totalEnergy_sum A assms(3))
qed

lemma totalEnergy_set_energy:
  assumes "MAX_POP t = MAX_POP s" "oActive t = oActive s"
    "oEnergy t = (oEnergy s)(i := e)" "i < MAX_POP s" "oActive s i"
  shows "totalEnergy t = totalEnergy s - oEnergy s i + e"
proof -
  let ?A = "{j. j < MAX_POP s \<and> oActive s j}"
  have m: "i \<in> ?A" using assms by simp
  have f: "finite ?A" by simp
  have 1: "sum (oEnergy s) ?A = oEnergy s i + sum (oEnergy s) (?A - {i})"
    using f m by (rule sum.remove)
  have 2: "sum (oEnergy t) ?A = oEnergy t i + sum (oEnergy t) (?A - {i})"
    using f m by (rule sum.remove)
  have "sum (oEnergy t) (?A - {i}) = sum (oEnergy s) (?A - {i})"
    by (intro sum.cong) (auto simp add: assms(3))
  then show ?thesis using 1 2 by (simp add: totalEnergy_sum assms(1,2,3))
qed

lemma orgStore_inv_top:
  assumes "orgStore_inv s" "0 \<le> oFreePtr s"
  shows "oFree s (nat (oFreePtr s)) < MAX_POP s" "\<not> oActive s (oFree s (nat (oFreePtr s)))"
proof -
  have "oFree s (nat (oFreePtr s)) \<in> set (freeList (oFree s) (oFreePtr s))"
    using assms(2) by (simp add: freeList_snoc)
  then have "oFree s (nat (oFreePtr s)) \<in> set (filter (\<lambda>i. \<not> oActive s i) [0..<MAX_POP s])"
    using assms(1) by (simp add: orgStore_inv_def pool_inv_def)
  then show "oFree s (nat (oFreePtr s)) < MAX_POP s" "\<not> oActive s (oFree s (nat (oFreePtr s)))"
    by simp_all
qed

lemma spawnOrganism_oEnergy:
  assumes "0 \<le> oFreePtr s"
  shows "\<exists>e. oEnergy (snd (spawnOrganism x y p s)) = (oEnergy s)(oFree s (nat (oFreePtr s)) := e)"
proof -
  have "\<And>k t. oEnergy (initOrganism x y p k t) = oEnergy t"
    by (rule initOrganism_frame) simp_all
  then show ?thesis
    using assms by (simp add: spawnOrganism_def allocOrganism_def Let_def split_def) blast
qed

lemma spawnChild_full: "oFreePtr s < 0 \<Longrightarrow> spawnChild i share s = s"
  by (simp add: spawnChild_def spawnOrganism_empty)

lemma spawnChild_step:
  assumes "0 \<le> oFreePtr s"
  shows "orgAlloc (spawnChild i share s) =
           (MAX_POP s, (oActive s)(oFree s (nat (oFreePtr s)) := True), oFree s,
            oFreePtr s - 1, activeCount s + 1)"
    and "oEnergy (spawnChild i share s) = (oEnergy s)(oFree s (nat (oFreePtr s)) := share)"
proof -
  let ?r = "spawnOrganism (oX s i) (oY s i) (int i) s"
  have c: "fst ?r = int (oFree s (nat (oFreePtr s)))" using assms by (rule spawnOrganism_fst)
  then have sc: "spawnChild i share s
                   = (snd ?r)\<lparr>oEnergy := (oEnergy (snd ?r))(oFree s (nat (oFreePtr s)) := share)\<rparr>"
    by (simp add: spawnChild_def split_def)
  have "orgAlloc (spawnChild i share s) = orgAlloc (snd ?r)"
    unfolding sc by (simp add: orgAlloc_def)
  then show "orgAlloc (spawnChild i share s) =
           (MAX_POP s, (oActive s)(oFree s (nat (oFreePtr s)) := True), oFree s,
            oFreePtr s - 1, activeCount s + 1)"
    using spawnOrganism_orgAlloc [OF assms] by simp
  obtain e where "oEnergy (snd ?r) = (oEnergy s)(oFree s (nat (oFreePtr s)) := e)"
    using spawnOrganism_oEnergy [OF assms] by blast
  then show "oEnergy (spawnChild i share s) = (oEnergy s)(oFree s (nat (oFreePtr s)) := share)"
    unfolding sc by simp
qed

lemma spawned_step:
  assumes "spawned s share k t" "0 \<le> oFreePtr t"
  shows "spawned s share (Suc k) (spawnChild i share t)"
proof -
  let ?idx = "oFree t (nat (oFreePtr t))"
  let ?u = "spawnChild i share t"
  have inv: "orgStore_inv t" using assms(1) by (simp add: spawned_def)
  have top: "?idx < MAX_POP t" "\<not> oActive t ?idx" using orgStore_inv_top [OF inv assms(2)] .
  have al: "MAX_POP ?u = MAX_POP t" "oActive ?u = (oActive t)(?idx := True)"
    "oFree ?u = oFree t" "oFreePtr ?u = oFreePtr t - 1" "activeCount ?u = activeCount t + 1"
    using spawnChild_step(1) [OF assms(2), of i share] by (simp_all add: orgAlloc_def)
  have en: "oEnergy ?u = (oEnergy t)(?idx := share)" using assms(2) by (rule spawnChild_step(2))
  have "pool_inv (MAX_POP t) ((oActive t)(?idx := True)) (oFree t) (oFreePtr t - 1) (activeCount t + 1)"
    using inv assms(2) unfolding orgStore_inv_def by (rule pool_pop)
  then have 1: "orgStore_inv ?u" by (simp add: orgStore_inv_def al)
  have olds: "\<not> oActive s ?idx" using assms(1) top(2) by (auto simp add: spawned_def)
  have 2: "\<forall>j. oActive s j \<longrightarrow> oActive ?u j \<and> oEnergy ?u j = oEnergy s j"
    using assms(1) olds by (auto simp add: spawned_def al en)
  have 3: "\<forall>j. oActive ?u j \<and> \<not> oActive s j \<longrightarrow> oEnergy ?u j = share"
    using assms(1) by (auto simp add: spawned_def al en)
  have "totalEnergy ?u = totalEnergy t + share"
    using al(1,2) en top by (rule totalEnergy_activate)
  then have 4: "totalEnergy ?u = totalEnergy s + real (Suc k) * share"
    using assms(1) by (simp add: spawned_def algebra_simps)
  show ?thesis
    unfolding spawned_def using 1 2 3 4 assms(1) by (simp add: spawned_def al)
qed

lemma spawned_loop:
  assumes "orgStore_inv s"
  shows "spawned s share (min n (nat (oFreePtr s + 1))) ((spawnChild i share ^^ n) s)"
proof (induction n)
  case 0
  show ?case using assms by (simp add: spawned_def)
next
  case (Suc n)
  let ?t = "(spawnChild i share ^^ n) s"
  let ?f = "nat (oFreePtr s + 1)"
  have p: "- 1 \<le> oFreePtr s" using assms by (simp add: orgStore_inv_def pool_inv_def)
  have ptr: "oFreePtr ?t = oFreePtr s - int (min n ?f)" using Suc by (simp add: spawned_def)
  show ?case
  proof (cases "n < ?f")
    case True
    then have "0 \<le> oFreePtr ?t" using ptr p by (simp add: min_def)
    then have "spawned s share (Suc (min n ?f)) (spawnChild i share ?t)"
      using Suc by (intro spawned_step)
    moreover have "Suc (min n ?f) = min (Suc n) ?f" using True by simp
    ultimately show ?thesis by simp
  next
    case False
    then have "oFreePtr ?t < 0" using ptr p by (simp add: min_def)
    then have "spawnChild i share ?t = ?t" by (rule spawnChild_full)
    moreover have "min (Suc n) ?f = min n ?f" using False by simp
    ultimately show ?thesis using Suc by simp
  qed
qed

lemma numOffspring_range: "1 \<le> numOffspring e" "numOffspring e \<le> 8"
  by (simp_all add: numOffspring_def Let_def)

lemma reproduce_general:
  assumes "orgStore_inv s" "i < MAX_POP s" "oActive s i" "oEnergy s i > gRepro s i"
  defines "n \<equiv> numOffspring (oEnergy s i)"
  defines "share \<equiv> oEnergy s i / (of_int n + 1)"
  defines "k \<equiv> min (nat n) (nat (freeSlots s))"
  shows "activeCount (reproduce i s) = activeCount s + int k"
    and "oEnergy (reproduce i s) i = share"
    and "\<forall>j. oActive (reproduce i s) j \<and> \<not> oActive s j \<longrightarrow> oEnergy (reproduce i s) j = share"
    and "\<forall>j. oActive s j \<longrightarrow> oActive (reproduce i s) j"
    and "\<forall>j. oActive s j \<and> j \<noteq> i \<longrightarrow> oEnergy (reproduce i s) j = oEnergy s j"
    and "totalEnergy (reproduce i s) = totalEnergy s - oEnergy s i + (real k + 1) * share"
    and "orgStore_inv (reproduce i s)"
proof -
  let ?s0 = "s\<lparr>oEnergy := (oEnergy s)(i := share)\<rparr>"
  have r: "reproduce i s = (spawnChild i share ^^ nat n) ?s0"
    using assms(4) by (simp add: reproduce_def Let_def n_def share_def)
  have inv0: "orgStore_inv ?s0" using assms(1) by (simp add: orgStore_inv_def)
  have "spawned ?s0 share (min (nat n) (nat (oFreePtr ?s0 + 1))) ((spawnChild i share ^^ nat n) ?s0)"
    using inv0 by (rule spawned_loop)
  then have sp: "spawned ?s0 share k (reproduce i s)"
    by (simp add: r k_def freeSlots_def)
  have t0: "totalEnergy ?s0 = totalEnergy s - oEnergy s i + share"
    by (rule totalEnergy_set_energy) (simp_all add: assms(2,3))
  show "activeCount (reproduce i s) = activeCount s + int k" using sp by (simp add: spawned_def)
  show "oEnergy (reproduce i s) i = share" using sp assms(3) by (simp add: spawned_def)
  show "\<forall>j. oActive (reproduce i s) j \<and> \<not> oActive s j \<longrightarrow> oEnergy (reproduce i s) j = share"
    using sp by (simp add: spawned_def)
  show "\<forall>j. oActive s j \<longrightarrow> oActive (reproduce i s) j" using sp by (simp add: spawned_def)
  show "\<forall>j. oActive s j \<and> j \<noteq> i \<longrightarrow> oEnergy (reproduce i s) j = oEnergy s j"
    using sp by (simp add: spawned_def)
  show "totalEnergy (reproduce i s) = totalEnergy s - oEnergy s i + (real k + 1) * share"
    using sp t0 by (simp add: spawned_def algebra_simps)
  show "orgStore_inv (reproduce i s)" using sp by (simp add: spawned_def)
qed

section \<open>The single-organism examples\<close>

lemma oneOrganism_fields:
  "MAX_POP oneOrganism = 2" "oActive oneOrganism = (\<lambda>_. False)(0 := True)"
  "oFreePtr oneOrganism = 0" "activeCount oneOrganism = 1" "oFree oneOrganism 0 = Suc 0"
  "oEnergy oneOrganism = (\<lambda>_. 0)(0 := 700)" "gRepro oneOrganism 0 = 500"
  by (simp_all add: oneOrganism_def tinyEngine_def blankEngine_def)

lemma oneOrganism_inv: "orgStore_inv oneOrganism"
  by (simp add: orgStore_inv_def pool_inv_def freeList_def oneOrganism_fields numeral_2_eq_2)

lemma oneOrganism_totalEnergy: "totalEnergy oneOrganism = 700"
  by (simp add: totalEnergy_def oneOrganism_fields numeral_2_eq_2)

lemma fertile_fields:
  "MAX_POP fertile = 2" "oActive fertile = (\<lambda>_. False)(0 := True)"
  "oFreePtr fertile = 0" "activeCount fertile = 1" "oFree fertile 0 = Suc 0"
  "oEnergy fertile = (\<lambda>_. 0)(0 := 550)" "gRepro fertile 0 = 500"
  by (simp_all add: fertile_def oneOrganism_def tinyEngine_def blankEngine_def)

lemma fertile_inv: "orgStore_inv fertile"
  by (simp add: orgStore_inv_def pool_inv_def freeList_def fertile_fields numeral_2_eq_2)

lemma fertile_totalEnergy: "totalEnergy fertile = 550"
  by (simp add: totalEnergy_def fertile_fields numeral_2_eq_2)

lemma numOffspring_examples: "numOffspring 550 = 1" "numOffspring 700 = 2"
  by (simp_all add: numOffspring_def costPerChild_def Let_def)

section \<open>Loading a document into reset stores\<close>

lemma filter_upt_prefix:
  assumes "k \<le> n" "\<forall>i < n. P i \<longleftrightarrow> i < k"
  shows "filter P [0..<n] = [0..<k]"
proof -
  have "[0..<n] = [0..<k] @ [k..<n]" using assms(1) by (metis le_add_diff_inverse upt_add_eq_append zero_le)
  moreover have "filter P [0..<k] = [0..<k]" using assms by (simp add: filter_id_conv)
  moreover have "filter P [k..<n] = []" using assms by (simp add: filter_empty_conv)
  ultimately show ?thesis by simp
qed

lemma loadedOrg_tuples:
  assumes "loadedOrg s k" shows "organismList s = map (orgTuple s) [0..<k]"
proof -
  have "k \<le> MAX_POP s" "\<forall>i < MAX_POP s. oActive s i \<longleftrightarrow> i < k"
    using assms by (simp_all add: loadedOrg_def)
  then have "filter (oActive s) [0..<MAX_POP s] = [0..<k]" by (rule filter_upt_prefix)
  then show ?thesis by (simp add: organismList_def)
qed

lemma loadedFood_tuples:
  assumes "loadedFood s k" shows "foodList s = map (foodTuple s) [0..<k]"
proof -
  have "k \<le> MAX_FOOD s" "\<forall>i < MAX_FOOD s. fActive s i \<longleftrightarrow> i < k"
    using assms by (simp_all add: loadedFood_def)
  then have "filter (fActive s) [0..<MAX_FOOD s] = [0..<k]" by (rule filter_upt_prefix)
  then show ?thesis by (simp add: foodList_def)
qed

lemma padTuple_13:
  "padTuple nan 13 t = [tupleField nan t 0, tupleField nan t 1, tupleField nan t 2,
     tupleField nan t 3, tupleField nan t 4, tupleField nan t 5, tupleField nan t 6,
     tupleField nan t 7, tupleField nan t 8, tupleField nan t 9, tupleField nan t 10,
     tupleField nan t 11, tupleField nan t 12]"
  by (simp add: padTuple_def upt_rec numeral_eq_Suc)

lemma padTuple_2: "padTuple nan 2 t = [tupleField nan t 0, tupleField nan t 1]"
  by (simp add: padTuple_def upt_rec numeral_eq_Suc)

lemma padTuple_exact: "length t = n \<Longrightarrow> padTuple nan n t = t"
  by (auto simp add: padTuple_def tupleField_def intro: nth_equalityI)

lemma loadOrganism_loaded:
  assumes "loadedOrg s k" "k < MAX_POP s"
  shows "loadedOrg (loadOrganism nan org s) (Suc k)"
    and "MAX_POP (loadOrganism nan org s) = MAX_POP s"
    and "orgTuple (loadOrganism nan org s) k = padTuple nan 13 org"
    and "\<forall>i < k. orgTuple (loadOrganism nan org s) i = orgTuple s i"
proof -
  have idx: "oFree s (nat (oFreePtr s)) = k"
  proof -
    have "nat (oFreePtr s) = MAX_POP s - 1 - k" using assms by (simp add: loadedOrg_def)
    moreover have "MAX_POP s - 1 - k < MAX_POP s" using assms(2) by simp
    ultimately have "oFree s (nat (oFreePtr s)) = MAX_POP s - 1 - (MAX_POP s - 1 - k)"
      using assms(1) by (simp add: loadedOrg_def)
    then show ?thesis using assms(2) by simp
  qed
  show "loadedOrg (loadOrganism nan org s) (Suc k)"
    using assms by (auto simp add: loadOrganism_def Let_def idx loadedOrg_def)
  show "MAX_POP (loadOrganism nan org s) = MAX_POP s" by (simp add: loadOrganism_def Let_def)
  show "orgTuple (loadOrganism nan org s) k = padTuple nan 13 org"
    unfolding padTuple_13 by (simp add: loadOrganism_def Let_def idx orgTuple_def)
  show "\<forall>i < k. orgTuple (loadOrganism nan org s) i = orgTuple s i"
    by (simp add: loadOrganism_def Let_def idx orgTuple_def)
qed

lemma loadOrganisms_loaded:
  assumes "loadedOrg s k"
  shows "loadedOrg (loadOrganisms nan orgs s) (k + length (take (MAX_POP s - k) orgs)) \<and>
         MAX_POP (loadOrganisms nan orgs s) = MAX_POP s \<and>
         map (orgTuple (loadOrganisms nan orgs s)) [0..<k + length (take (MAX_POP s - k) orgs)]
           = map (orgTuple s) [0..<k] @ map (padTuple nan 13) (take (MAX_POP s - k) orgs)"
  using assms
proof (induction orgs arbitrary: s k)
  case Nil
  then show ?case by simp
next
  case (Cons org rest)
  show ?case
  proof (cases "k < MAX_POP s")
    case False
    then have "k = MAX_POP s" using Cons.prems by (simp add: loadedOrg_def)
    moreover then have "oFreePtr s < 0" using Cons.prems by (simp add: loadedOrg_def)
    ultimately show ?thesis using Cons.prems by simp
  next
    case True
    let ?s1 = "loadOrganism nan org s"
    note l = loadOrganism_loaded [OF Cons.prems True, of nan org]
    have p: "\<not> oFreePtr s < 0" using Cons.prems True by (simp add: loadedOrg_def)
    note ih = Cons.IH [OF l(1), unfolded l(2)]
    have tk: "take (MAX_POP s - k) (org # rest) = org # take (MAX_POP s - Suc k) rest"
    proof -
      have "MAX_POP s - k = Suc (MAX_POP s - Suc k)" using True by arith
      then show ?thesis by (simp only: take_Suc_Cons)
    qed
    have "map (orgTuple ?s1) [0..<Suc k] = map (orgTuple s) [0..<k] @ [padTuple nan 13 org]"
      using l(3,4) by simp
    then show ?thesis using ih p by (simp add: tk)
  qed
qed


lemma loadFoodItem_loaded:
  assumes "loadedFood s k" "k < MAX_FOOD s"
  shows "loadedFood (loadFoodItem nan f s) (Suc k)"
    and "MAX_FOOD (loadFoodItem nan f s) = MAX_FOOD s"
    and "foodTuple (loadFoodItem nan f s) k = padTuple nan 2 f"
    and "\<forall>i < k. foodTuple (loadFoodItem nan f s) i = foodTuple s i"
proof -
  have idx: "fFree s (nat (fFreePtr s)) = k"
  proof -
    have "nat (fFreePtr s) = MAX_FOOD s - 1 - k" using assms by (simp add: loadedFood_def)
    moreover have "MAX_FOOD s - 1 - k < MAX_FOOD s" using assms(2) by simp
    ultimately have "fFree s (nat (fFreePtr s)) = MAX_FOOD s - 1 - (MAX_FOOD s - 1 - k)"
      using assms(1) by (simp add: loadedFood_def)
    then show ?thesis using assms(2) by simp
  qed
  show "loadedFood (loadFoodItem nan f s) (Suc k)"
    using assms by (auto simp add: loadFoodItem_def Let_def idx loadedFood_def)
  show "MAX_FOOD (loadFoodItem nan f s) = MAX_FOOD s" by (simp add: loadFoodItem_def Let_def)
  show "foodTuple (loadFoodItem nan f s) k = padTuple nan 2 f"
    unfolding padTuple_2 by (simp add: loadFoodItem_def Let_def idx foodTuple_def)
  show "\<forall>i < k. foodTuple (loadFoodItem nan f s) i = foodTuple s i"
    by (simp add: loadFoodItem_def Let_def idx foodTuple_def)
qed

lemma loadFood_loaded:
  assumes "loadedFood s k"
  shows "loadedFood (loadFood nan fs s) (k + length (take (MAX_FOOD s - k) fs)) \<and>
         MAX_FOOD (loadFood nan fs s) = MAX_FOOD s \<and>
         map (foodTuple (loadFood nan fs s)) [0..<k + length (take (MAX_FOOD s - k) fs)]
           = map (foodTuple s) [0..<k] @ map (padTuple nan 2) (take (MAX_FOOD s - k) fs)"
  using assms
proof (induction fs arbitrary: s k)
  case Nil
  then show ?case by simp
next
  case (Cons f rest)
  show ?case
  proof (cases "k < MAX_FOOD s")
    case False
    then have "k = MAX_FOOD s" using Cons.prems by (simp add: loadedFood_def)
    moreover then have "fFreePtr s < 0" using Cons.prems by (simp add: loadedFood_def)
    ultimately show ?thesis using Cons.prems by simp
  next
    case True
    let ?s1 = "loadFoodItem nan f s"
    note l = loadFoodItem_loaded [OF Cons.prems True, of nan f]
    have p: "\<not> fFreePtr s < 0" using Cons.prems True by (simp add: loadedFood_def)
    note ih = Cons.IH [OF l(1), unfolded l(2)]
    have tk: "take (MAX_FOOD s - k) (f # rest) = f # take (MAX_FOOD s - Suc k) rest"
    proof -
      have "MAX_FOOD s - k = Suc (MAX_FOOD s - Suc k)" using True by arith
      then show ?thesis by (simp only: take_Suc_Cons)
    qed
    have "map (foodTuple ?s1) [0..<Suc k] = map (foodTuple s) [0..<k] @ [padTuple nan 2 f]"
      using l(3,4) by simp
    then show ?thesis using ih p by (simp add: tk)
  qed
qed

lemma loadOrganism_others:
  "headerView (loadOrganism nan org s) = headerView s"
  "loadedFood (loadOrganism nan org s) k = loadedFood s k"
  "foodList (loadOrganism nan org s) = foodList s"
  "foodCount (loadOrganism nan org s) = foodCount s"
  "MAX_FOOD (loadOrganism nan org s) = MAX_FOOD s"
  by (simp_all add: loadOrganism_def Let_def headerView_def loadedFood_def foodList_def
      foodTuple_def)

lemma loadOrganisms_others:
  "headerView (loadOrganisms nan orgs s) = headerView s \<and>
   loadedFood (loadOrganisms nan orgs s) k = loadedFood s k \<and>
   foodList (loadOrganisms nan orgs s) = foodList s \<and>
   MAX_FOOD (loadOrganisms nan orgs s) = MAX_FOOD s"
  by (induction orgs arbitrary: s) (simp_all add: loadOrganism_others)

lemma loadFoodItem_others:
  "headerView (loadFoodItem nan f s) = headerView s"
  "organismList (loadFoodItem nan f s) = organismList s"
  "activeCount (loadFoodItem nan f s) = activeCount s"
  by (simp_all add: loadFoodItem_def Let_def headerView_def organismList_def orgTuple_def)

lemma loadFood_others:
  "headerView (loadFood nan fs s) = headerView s \<and>
   organismList (loadFood nan fs s) = organismList s \<and>
   activeCount (loadFood nan fs s) = activeCount s"
  by (induction fs arbitrary: s) (simp_all add: loadFoodItem_others)

lemma clampCamera_others:
  "headerView (clampCamera s) = headerView s"
  "organismList (clampCamera s) = organismList s"
  "foodList (clampCamera s) = foodList s"
  "activeCount (clampCamera s) = activeCount s" "foodCount (clampCamera s) = foodCount s"
  by (rule clampCamera_frame,
      simp add: headerView_def organismList_def orgTuple_def foodList_def foodTuple_def)+

lemma loadFood_orgTuple: "orgTuple (loadFood nan fs s) = orgTuple s"
proof (induction fs arbitrary: s)
  case Nil
  show ?case by simp
next
  case (Cons f rest)
  have "orgTuple (loadFoodItem nan f s) = orgTuple s"
    by (rule ext) (simp add: loadFoodItem_def Let_def orgTuple_def)
  then show ?case using Cons.IH [of "loadFoodItem nan f s"] by simp
qed

lemma clampCamera_orgTuple: "orgTuple (clampCamera s) = orgTuple s"
  by (rule clampCamera_frame) (simp add: orgTuple_def fun_eq_iff)

text \<open>The header block leaves both stores as the reset made them, whether it raises or
  not, and assigns the fields up to the first absent section.\<close>

lemma header_loaded:
  "loadedOrg (snd (loadHeader d (resetStores s))) 0"
  "loadedFood (snd (loadHeader d (resetStores s))) 0"
  "MAX_POP (snd (loadHeader d (resetStores s))) = MAX_POP s"
  "MAX_FOOD (snd (loadHeader d (resetStores s))) = MAX_FOOD s"
  "config (snd (loadHeader d (resetStores s))) = doc_config d"
  by (simp_all add: loadHeader_def Let_def resetStores_eq loadedOrg_def loadedFood_def
      split: option.splits)

lemma header_complete:
  assumes "world d = Some w" "flags w = Some fl" "environment d = Some env"
  shows "fst (loadHeader d s) = None"
    and "headerView (snd (loadHeader d s))
           = (doc_config d, world_size w, world_simSpeed w, predation fl, zones_flag fl, debug fl,
              env_zones env)"
  using assms by (simp_all add: loadHeader_def Let_def headerView_def)





lemma importState_header_ok:
  assumes "fst (loadHeader d (resetStores s)) = None"
  shows "importState nan d s
           = (case loadEntities nan d (snd (loadHeader d (resetStores s))) of
                (Some e, t) \<Rightarrow> (Some e, t) | (None, t) \<Rightarrow> (None, clampCamera t))"
  using assms by (cases "loadHeader d (resetStores s)") (simp add: importState_def)




lemma importState_complete:
  assumes "fst (loadHeader d (resetStores s)) = None"
    and "entities d = Some en" "organisms en = Some os" "food en = Some fs"
  shows "fst (importState nan d s) = None"
    and "organismList (snd (importState nan d s)) = map (padTuple nan 13) (take (MAX_POP s) os)"
    and "foodList (snd (importState nan d s)) = map (padTuple nan 2) (take (MAX_FOOD s) fs)"
    and "headerView (snd (importState nan d s)) = headerView (snd (loadHeader d (resetStores s)))"
    and "activeCount (snd (importState nan d s)) = int (length (take (MAX_POP s) os))"
    and "map (orgTuple (snd (importState nan d s))) [0..<length (take (MAX_POP s) os)]
           = map (padTuple nan 13) (take (MAX_POP s) os)"
proof -
  let ?h = "snd (loadHeader d (resetStores s))"
  let ?o = "loadOrganisms nan os ?h"
  let ?f = "loadFood nan fs ?o"
  have l: "loadEntities nan d ?h = (None, ?f)"
    using assms(2-4) by (simp add: loadEntities_def Let_def)
  have r: "importState nan d s = (None, clampCamera ?f)"
    by (simp add: importState_header_ok [OF assms(1)] l)
  note lo = loadOrganisms_loaded [OF header_loaded(1) [of d s], where nan = nan and orgs = os,
      unfolded header_loaded(3)]
  have lf0: "loadedFood ?o 0" using loadOrganisms_others [of nan os ?h 0] header_loaded(2) by simp
  have mf: "MAX_FOOD ?o = MAX_FOOD s"
    using loadOrganisms_others [of nan os ?h 0] header_loaded(4) [of d s] by simp
  note lf = loadFood_loaded [OF lf0, where nan = nan and fs = fs, unfolded mf]
  show "fst (importState nan d s) = None" by (simp add: r)
  have "organismList ?o = map (padTuple nan 13) (take (MAX_POP s) os)"
    using lo loadedOrg_tuples [of ?o "length (take (MAX_POP s) os)"] by simp
  then show "organismList (snd (importState nan d s)) = map (padTuple nan 13) (take (MAX_POP s) os)"
    by (simp add: r clampCamera_others loadFood_others)
  have "foodList ?f = map (padTuple nan 2) (take (MAX_FOOD s) fs)"
    using lf loadedFood_tuples [of ?f "length (take (MAX_FOOD s) fs)"] by simp
  then show "foodList (snd (importState nan d s)) = map (padTuple nan 2) (take (MAX_FOOD s) fs)"
    by (simp add: r clampCamera_others)
  show "headerView (snd (importState nan d s)) = headerView ?h"
    by (simp add: r clampCamera_others loadFood_others loadOrganisms_others)
  have "activeCount ?o = int (length (take (MAX_POP s) os))"
    using lo by (simp add: loadedOrg_def)
  then show "activeCount (snd (importState nan d s)) = int (length (take (MAX_POP s) os))"
    by (simp add: r clampCamera_others loadFood_others)
  show "map (orgTuple (snd (importState nan d s))) [0..<length (take (MAX_POP s) os)]
          = map (padTuple nan 13) (take (MAX_POP s) os)"
    using lo by (simp add: r clampCamera_orgTuple loadFood_orgTuple)
qed

section \<open>Exported documents\<close>

text \<open>The scans of \<open>exportState\<close> push the tuples of the active slots in slot order.\<close>

lemma scan_push:
  "fold (\<lambda>i acc. if P i then acc @ [f i] else acc) xs acc = acc @ map f (filter P xs)"
  by (induction xs arbitrary: acc) simp_all

lemma orgTuple_length: "length (orgTuple s i) = 13" by (simp add: orgTuple_def)

lemma foodTuple_length: "length (foodTuple s i) = 2" by (simp add: foodTuple_def)

lemma organismList_pad: "map (padTuple nan 13) (organismList s) = organismList s"
  by (rule map_idI) (auto simp add: organismList_def padTuple_exact orgTuple_length)

lemma foodList_pad: "map (padTuple nan 2) (foodList s) = foodList s"
  by (rule map_idI) (auto simp add: foodList_def padTuple_exact foodTuple_length)

lemma organismList_length: "length (organismList s) \<le> MAX_POP s"
  using length_filter_le [of "oActive s" "[0..<MAX_POP s]"] by (simp add: organismList_def)

lemma foodList_length: "length (foodList s) \<le> MAX_FOOD s"
  using length_filter_le [of "fActive s" "[0..<MAX_FOOD s]"] by (simp add: foodList_def)

lemma exportState_sections:
  "\<exists>w fl env en.
     world (exportState now s) = Some w \<and> flags w = Some fl \<and>
     environment (exportState now s) = Some env \<and> entities (exportState now s) = Some en \<and>
     organisms en = Some (organismList s) \<and> food en = Some (foodList s) \<and>
     doc_config (exportState now s) = config s \<and>
     world_size w = worldSize s \<and> world_simSpeed w = simSpeed s \<and>
     predation fl = predationActive s \<and> zones_flag fl = activeZones s \<and>
     debug fl = debugMode s \<and> env_zones env = zones s"
  by (simp add: exportState_def Let_def scan_push organismList_def foodList_def orgTuple_def
      foodTuple_def)

section \<open>The example documents and engines\<close>






lemma upt_examples: "[0..<4] = [0, 1, 2, 3]" "[0..<3] = [0, 1, 2]"
  by (simp_all add: upt_rec)

lemma colony_fields:
  "MAX_POP colony = 4" "MAX_FOOD colony = 3" "MAX_POP vacant = 4" "MAX_FOOD vacant = 3"
  "organismList vacant = []" "foodList vacant = []"
  "organismList colony
     = [[100, 200, 3, 4, 700, 2, 10, 50, 500, 1, 0, 1, 350],
        [7, 8, 0, 0, 90, 2, 5, 50, 500, 1, 0, 1, 20],
        [7, 8, 0, 0, 90, 2, 5, 50, 500, 1, 0, 1, 20]]"
  "foodList colony = [[5, 6], [7, 8]]"
  "oActive colony = (\<lambda>_. False)(0 := True, 2 := True, 3 := True)"
  "zones colony = [\<lparr>pos = \<lparr>vec_x = 1, vec_y = 1\<rparr>, radius = 350, vel = \<lparr>vec_x = 0, vec_y = 0\<rparr>\<rparr>]"
  "worldSize colony = 6000" "predationActive colony = False" "config colony = defaultConfig"
  by (simp_all add: colony_def vacant_def blankEngine_def organismList_def foodList_def
      orgTuple_def foodTuple_def upt_examples)



section \<open>Store counters (claim C3)\<close>

text \<open>Claim C3. For the organism store and for the food store, the active counter
  equals the number of active-flagged slots and the size of the free list equals the
  capacity minus the active counter. The property is a consequence of the consistency
  of the stores, which \<open>init\<close>, the reset block and \<open>importState\<close>, whether it raises
  an exception or not, establish from any state, and which spawning and killing (of an
  active slot) preserve.\<close>

theorem store_counts_invariant:
  "store_inv (init t) \<and> store_inv (resetStores u) \<and> store_inv (snd (importState nan d u)) \<and>
   (store_inv s \<longrightarrow>
      activeCount s = int (activeSlots s) \<and> freeSlots s = int (MAX_POP s) - activeCount s \<and>
      foodCount s = int (activeFoodSlots s) \<and> freeFoodSlots s = int (MAX_FOOD s) - foodCount s \<and>
      store_inv (snd (spawnOrganism x y p s)) \<and>
      store_inv (snd (spawnFood fx fy s)) \<and>
      (idx < MAX_POP s \<and> oActive s idx \<longrightarrow> store_inv (killOrganism idx s)) \<and>
      (fidx < MAX_FOOD s \<and> fActive s fidx \<longrightarrow> store_inv (killFood fidx s)))"
  using init_store_inv [of t] resetStores_inv [of u] importState_store_inv [of nan d u]
    store_inv_counts [of s] spawnOrganism_store_inv [of s x y p] spawnFood_store_inv [of s fx fy]
    killOrganism_store_inv [of s idx] killFood_store_inv [of s fidx]
  by blast

text \<open>The statement at the engine of capacity two holding one organism and one food
  item.\<close>

theorem store_counts_invariant_witness:
  "store_inv seededEngine \<and> 0 < MAX_POP seededEngine \<and> oActive seededEngine 0 \<and>
   0 < MAX_FOOD seededEngine \<and> fActive seededEngine 0 \<and>
   activeCount seededEngine = 1 \<and> activeSlots seededEngine = 1 \<and> freeSlots seededEngine = 1 \<and>
   foodCount seededEngine = 1 \<and> activeFoodSlots seededEngine = 1 \<and>
   freeFoodSlots seededEngine = 1 \<and>
   store_inv (snd (spawnOrganism 3 4 0 seededEngine)) \<and>
   store_inv (snd (spawnFood 3 4 seededEngine)) \<and>
   store_inv (killOrganism 0 seededEngine) \<and> store_inv (killFood 0 seededEngine)"
  using store_counts_invariant [where s = seededEngine and idx = 0 and fidx = 0
      and x = 3 and y = 4 and p = 0 and fx = 3 and fy = 4 and t = tinyEngine
      and u = tinyEngine and nan = 0 and d = "exportState [] tinyEngine"]
    seededEngine_store_inv seededEngine_fields
  by (simp add: freeSlots_def freeFoodSlots_def)

section \<open>Spawning on an empty free list (claim C7)\<close>

text \<open>Claim C7. A spawn of an organism or of food requested while the free list of
  its store is empty returns the sentinel \<open>-1\<close> and leaves the whole engine state as
  it was; and after any spawn from a consistent state the active count is at most the
  capacity.\<close>

theorem spawn_on_empty_free_list:
  "(freeList (oFree s) (oFreePtr s) = [] \<longrightarrow> spawnOrganism x y p s = (- 1, s)) \<and>
   (freeList (fFree s) (fFreePtr s) = [] \<longrightarrow> spawnFood fx fy s = (- 1, s)) \<and>
   (store_inv s \<longrightarrow>
      activeCount (snd (spawnOrganism x y p s)) \<le> int (MAX_POP s) \<and>
      foodCount (snd (spawnFood fx fy s)) \<le> int (MAX_FOOD s))"
proof (intro conjI impI)
  assume "freeList (oFree s) (oFreePtr s) = []"
  then have "oFreePtr s < 0" by (simp add: freeList_def)
  then show "spawnOrganism x y p s = (- 1, s)" by (rule spawnOrganism_empty)
next
  assume "freeList (fFree s) (fFreePtr s) = []"
  then have "fFreePtr s < 0" by (simp add: freeList_def)
  then show "spawnFood fx fy s = (- 1, s)" by (simp add: spawnFood_def)
next
  assume a: "store_inv s"
  let ?t = "snd (spawnOrganism x y p s)"
  have "store_inv ?t" using a by (rule spawnOrganism_store_inv)
  then have "activeCount ?t = int (activeSlots ?t)" by (rule store_inv_counts)
  moreover have "activeSlots ?t \<le> MAX_POP ?t"
    using length_filter_le [of "oActive ?t" "[0..<MAX_POP ?t]"] by (simp add: activeSlots_def)
  moreover have "MAX_POP ?t = MAX_POP s"
  proof (cases "oFreePtr s < 0")
    case True then show ?thesis by (simp add: spawnOrganism_empty)
  next
    case False
    then show ?thesis using spawnOrganism_orgAlloc [of s x y p] by (simp add: orgAlloc_def)
  qed
  ultimately show "activeCount ?t \<le> int (MAX_POP s)" by simp
next
  assume a: "store_inv s"
  let ?t = "snd (spawnFood fx fy s)"
  have "store_inv ?t" using a by (rule spawnFood_store_inv)
  then have "foodCount ?t = int (activeFoodSlots ?t)" by (rule store_inv_counts)
  moreover have "activeFoodSlots ?t \<le> MAX_FOOD ?t"
    using length_filter_le [of "fActive ?t" "[0..<MAX_FOOD ?t]"] by (simp add: activeFoodSlots_def)
  moreover have "MAX_FOOD ?t = MAX_FOOD s" by (simp add: spawnFood_def Let_def)
  ultimately show "foodCount ?t \<le> int (MAX_FOOD s)" by simp
qed

text \<open>The statement at the engine of capacity one whose stores are both full.\<close>

theorem spawn_on_empty_free_list_witness:
  "freeList (oFree fullEngine) (oFreePtr fullEngine) = [] \<and>
   freeList (fFree fullEngine) (fFreePtr fullEngine) = [] \<and> store_inv fullEngine \<and>
   spawnOrganism 3 4 (- 1) fullEngine = (- 1, fullEngine) \<and>
   spawnFood 3 4 fullEngine = (- 1, fullEngine) \<and>
   activeCount (snd (spawnOrganism 3 4 (- 1) fullEngine)) \<le> 1 \<and>
   foodCount (snd (spawnFood 3 4 fullEngine)) \<le> 1"
  using spawn_on_empty_free_list [where s = fullEngine and x = 3 and y = 4 and p = "- 1"
      and fx = 3 and fy = 4]
    fullEngine_store_inv fullEngine_fields
  by (simp add: freeList_def)

section \<open>Target zone count (claim C8)\<close>

text \<open>Claim C8 states the target zone count as \<open>ceil(zoneDensity \<times> worldArea /
  referenceArea)\<close>. The code divides the side of the world by 3000, not its area by
  the reference area: in the world of side 6000 with the default density 5 the code's
  target is 10, the area formula gives 20.\<close>

theorem zone_target_area_counterexample:
  "targetZoneCount largeWorld = 10 \<and> areaTargetZoneCount largeWorld = 20 \<and>
   targetZoneCount largeWorld \<noteq> areaTargetZoneCount largeWorld"
  by (simp add: targetZoneCount_def areaTargetZoneCount_def largeWorld_def tinyEngine_def
      blankEngine_def defaultConfig_def)

text \<open>Claim C8 as amended. The target zone count is \<open>ceil(zoneDensity \<times> worldSize /
  3000)\<close>, linear in the side of the world; \<open>init\<close> creates exactly that many zones;
  with the zones switched on, \<open>updateEnvironment\<close> appends one zone when the list is
  below the target and otherwise keeps the number of zones, so that none is removed for
  being above the target; with the zones switched off it empties the list.\<close>

theorem zone_target_linear:
  "targetZoneCount s = \<lceil>zoneDensity (config s) * worldSize s / 3000\<rceil> \<and>
   length (zones (init t)) = nat (targetZoneCount t) \<and>
   (activeZones s \<and> int (length (zones s)) < targetZoneCount s \<longrightarrow>
      length (zones (updateEnvironment s)) = length (zones s) + 1) \<and>
   (activeZones s \<and> \<not> int (length (zones s)) < targetZoneCount s \<longrightarrow>
      length (zones (updateEnvironment s)) = length (zones s)) \<and>
   (\<not> activeZones s \<longrightarrow> zones (updateEnvironment s) = [])"
  by (simp add: init_zones_length updateEnvironment_zones_length)
     (simp add: targetZoneCount_def updateEnvironment_def)

text \<open>The three cases of \<open>updateEnvironment\<close>: below the target (no zone yet, target
  5), above it (one zone, target 0 after the density is set to 0), and switched off.\<close>

theorem zone_target_linear_witness:
  "activeZones tinyEngine \<and> int (length (zones tinyEngine)) < targetZoneCount tinyEngine \<and>
   length (zones (updateEnvironment tinyEngine)) = 1 \<and>
   activeZones crowded \<and> \<not> int (length (zones crowded)) < targetZoneCount crowded \<and>
   length (zones (updateEnvironment crowded)) = 1 \<and>
   \<not> activeZones zonesOff \<and> zones zonesOff \<noteq> [] \<and> zones (updateEnvironment zonesOff) = []"
  using zone_target_linear [of tinyEngine tinyEngine] zone_target_linear [of crowded tinyEngine]
    zone_target_linear [of zonesOff tinyEngine]
  by (simp add: tinyEngine_def crowded_def zonesOff_def blankEngine_def defaultConfig_def
      targetZoneCount_def)

section \<open>Trait ranges after mutation (claim C4)\<close>




section \<open>Positions stay in the world (claim C6)\<close>




section \<open>Predation (claim C9)\<close>

text \<open>Claim C9 says that the attacker inflicts damage reduced by the victim's defense,
  absorbs a fraction of the victim's energy, and destroys the victim only on a
  successful kill. In the code the victim's energy is never written: against a victim
  without defense the attacker gains the victim's whole energy and the size bonus; a
  victim with the maximal defense 1 is destroyed all the same, its energy cell unchanged,
  and the defense only costs the attacker 30.\<close>

theorem predation_counterexample:
  "oEnergy (attack 0 1 duel) 0 = oEnergy duel 0 + oEnergy duel 1 + 5 * gSize duel 1 \<and>
   \<not> oActive (attack 0 1 duel) 1 \<and>
   gDefense armoured 1 = 1 \<and>
   oEnergy (attack 0 1 armoured) 1 = oEnergy armoured 1 \<and>
   \<not> oActive (attack 0 1 armoured) 1 \<and>
   oEnergy (attack 0 1 armoured) 0 = oEnergy (attack 0 1 duel) 0 - 30"
  by (simp add: attack_def Let_def killOrganism_fields getWrappedDistSq_def armoured_def duel_def
      tinyEngine_def blankEngine_def defaultConfig_def)

text \<open>Claim C9 as amended. With predation enabled, when the attacker's size exceeds an
  active co-located organism's size times \<open>predatorSizeAdvantage\<close> and the squared
  wrapped distance is below the attacker's size squared, the attacker loses 30 times the
  victim's defense, gains the victim's entire energy and 5 times the victim's size, its
  resulting energy capped at 1.5 times its reproduction threshold; the victim is always
  destroyed, its own energy unchanged. On a cell list holding that one victim the
  predation loop is this single attack.\<close>

theorem predation_outcome:
  assumes "other \<noteq> i" "oActive s other"
    "gSize s i > gSize s other * predatorSizeAdvantage (config s)"
    "getWrappedDistSq s (oX s i) (oY s i) (oX s other) (oY s other) < gSize s i * gSize s i"
  shows "oEnergy (attack i other s) i =
           min (gRepro s i * 1.5)
               (oEnergy s i - gDefense s other * 30 + oEnergy s other + gSize s other * 5) \<and>
         oEnergy (attack i other s) i \<le> 1.5 * gRepro s i \<and>
         \<not> oActive (attack i other s) other \<and>
         oEnergy (attack i other s) other = oEnergy s other \<and>
         activeCount (attack i other s) = activeCount s - 1 \<and>
         (other < MAX_POP s \<and> gridNext s other = - 1 \<longrightarrow>
            predationLoop i (int other) s = Some (attack i other s))"
  using assms(1) predationLoop_single [of other s i]
  by (simp add: attack_hit [OF assms] killOrganism_fields) (simp add: min_def)

text \<open>The statement at the attack on the victim of defense 1: the attacker goes from
  200 to \<open>200 - 30 + 100 + 25 = 295\<close>.\<close>

theorem predation_outcome_witness:
  "(1::nat) \<noteq> 0 \<and> oActive armoured 1 \<and>
   gSize armoured 0 > gSize armoured 1 * predatorSizeAdvantage (config armoured) \<and>
   getWrappedDistSq armoured (oX armoured 0) (oY armoured 0) (oX armoured 1) (oY armoured 1)
     < gSize armoured 0 * gSize armoured 0 \<and>
   1 < MAX_POP armoured \<and> gridNext armoured 1 = - 1 \<and>
   oEnergy (attack 0 1 armoured) 0 = 295 \<and> \<not> oActive (attack 0 1 armoured) 1 \<and>
   oEnergy (attack 0 1 armoured) 1 = 100 \<and> activeCount (attack 0 1 armoured) = 1 \<and>
   predationLoop 0 1 armoured = Some (attack 0 1 armoured)"
proof -
  have f: "oActive armoured (Suc 0)" "gSize armoured 0 = 10" "gSize armoured (Suc 0) = 5"
    "predatorSizeAdvantage (config armoured) = 1.2" "oX armoured 0 = 100"
    "oX armoured (Suc 0) = 101" "oY armoured 0 = 100" "oY armoured (Suc 0) = 100"
    "worldSize armoured = 3000" "MAX_POP armoured = 2" "gridNext armoured (Suc 0) = - 1"
    "oEnergy armoured 0 = 200" "oEnergy armoured (Suc 0) = 100" "gDefense armoured (Suc 0) = 1"
    "gRepro armoured 0 = 1000" "activeCount armoured = 2"
    by (simp_all add: armoured_def duel_def tinyEngine_def blankEngine_def defaultConfig_def)
  have d: "getWrappedDistSq armoured 100 100 101 100 = 1"
    by (simp add: getWrappedDistSq_def f)
  show ?thesis
    using predation_outcome [of 1 0 armoured] by (simp add: f d)
qed

section \<open>Reproduction with free capacity (claim C5)\<close>

text \<open>Claim C5. For an active organism whose energy exceeds its reproduction threshold
  at the reproduction step, when the free list can supply every intended child, the
  step produces between 1 and 8 offspring: the count is the energy divided by the cost
  per child (300, 280 above energy 600, 260 above 1200), rounded down and kept within 1
  and 8. The parent's energy becomes its previous energy divided by the count plus one,
  every new organism has the same share, the organisms active before stay active, and
  the energy held by the active organisms is unchanged in total.\<close>

theorem reproduction_with_capacity:
  assumes "orgStore_inv s" "i < MAX_POP s" "oActive s i" "oEnergy s i > gRepro s i"
    "numOffspring (oEnergy s i) \<le> freeSlots s"
  shows "1 \<le> numOffspring (oEnergy s i) \<and> numOffspring (oEnergy s i) \<le> 8 \<and>
    numOffspring (oEnergy s i) = max 1 (min 8 \<lfloor>oEnergy s i / costPerChild (oEnergy s i)\<rfloor>) \<and>
    costPerChild (oEnergy s i)
      = (if oEnergy s i > 1200 then 260 else if oEnergy s i > 600 then 280 else 300) \<and>
    activeCount (reproduce i s) = activeCount s + numOffspring (oEnergy s i) \<and>
    oEnergy (reproduce i s) i = oEnergy s i / (of_int (numOffspring (oEnergy s i)) + 1) \<and>
    (\<forall>j. oActive (reproduce i s) j \<and> \<not> oActive s j \<longrightarrow>
         oEnergy (reproduce i s) j = oEnergy s i / (of_int (numOffspring (oEnergy s i)) + 1)) \<and>
    (\<forall>j. oActive s j \<longrightarrow> oActive (reproduce i s) j) \<and>
    totalEnergy (reproduce i s) = totalEnergy s"
proof -
  let ?n = "numOffspring (oEnergy s i)"
  have n: "1 \<le> ?n" "?n \<le> 8" by (rule numOffspring_range)+
  then have k: "min (nat ?n) (nat (freeSlots s)) = nat ?n" using assms(5) by simp
  note g = reproduce_general [OF assms(1-4), unfolded k]
  have "(real (nat ?n) + 1) * (oEnergy s i / (of_int ?n + 1)) = oEnergy s i"
    using n by simp
  then have t: "totalEnergy (reproduce i s) = totalEnergy s" using g(6) by simp
  have "\<And>m::int. (if (if m < 1 then 1 else m) > 8 then 8 else (if m < 1 then 1 else m))
                    = max 1 (min 8 m)"
    by (simp add: max_def min_def)
  then have c: "?n = max 1 (min 8 \<lfloor>oEnergy s i / costPerChild (oEnergy s i)\<rfloor>)"
    unfolding numOffspring_def Let_def .
  have d: "costPerChild (oEnergy s i)
      = (if oEnergy s i > 1200 then 260 else if oEnergy s i > 600 then 280 else 300)"
    by (simp add: costPerChild_def Let_def)
  have a: "activeCount (reproduce i s) = activeCount s + ?n" using g(1) n by simp
  show ?thesis using n a g(2-4) t c d by (intro conjI) assumption+
qed

text \<open>The statement at the organism of energy 550 and threshold 500 with one free slot:
  one child, both at 275.\<close>

theorem reproduction_with_capacity_witness:
  "orgStore_inv fertile \<and> 0 < MAX_POP fertile \<and> oActive fertile 0 \<and>
   oEnergy fertile 0 > gRepro fertile 0 \<and> numOffspring (oEnergy fertile 0) \<le> freeSlots fertile \<and>
   numOffspring (oEnergy fertile 0) = 1 \<and>
   activeCount (reproduce 0 fertile) = 2 \<and> oEnergy (reproduce 0 fertile) 0 = 275 \<and>
   totalEnergy (reproduce 0 fertile) = 550"
proof -
  have h: "orgStore_inv fertile" "0 < MAX_POP fertile" "oActive fertile 0"
    "oEnergy fertile 0 > gRepro fertile 0" "numOffspring (oEnergy fertile 0) \<le> freeSlots fertile"
    by (simp_all add: fertile_inv fertile_fields numOffspring_examples freeSlots_def)
  show ?thesis
    using reproduction_with_capacity [OF h] h
    by (simp add: fertile_fields numOffspring_examples fertile_totalEnergy)
qed

section \<open>Reproduction when the free list runs out (claim C10)\<close>

text \<open>Claim C10. When reproduction triggers and the free list holds fewer slots than
  the intended number of offspring, as many children as there are free slots are
  spawned, the parent's energy is still its previous energy divided by the intended
  count plus one, each child has that share, and the total energy of the active
  organisms drops by one share for each child that was not spawned.\<close>

theorem reproduction_without_capacity:
  assumes "orgStore_inv s" "i < MAX_POP s" "oActive s i" "oEnergy s i > gRepro s i"
    "freeSlots s < numOffspring (oEnergy s i)"
  shows "0 \<le> freeSlots s \<and>
    activeCount (reproduce i s) = activeCount s + freeSlots s \<and>
    oEnergy (reproduce i s) i = oEnergy s i / (of_int (numOffspring (oEnergy s i)) + 1) \<and>
    (\<forall>j. oActive (reproduce i s) j \<and> \<not> oActive s j \<longrightarrow>
         oEnergy (reproduce i s) j = oEnergy s i / (of_int (numOffspring (oEnergy s i)) + 1)) \<and>
    totalEnergy (reproduce i s)
      = totalEnergy s
        - of_int (numOffspring (oEnergy s i) - freeSlots s)
          * (oEnergy s i / (of_int (numOffspring (oEnergy s i)) + 1))"
proof -
  let ?n = "numOffspring (oEnergy s i)"
  let ?share = "oEnergy s i / (of_int ?n + 1)"
  have n: "1 \<le> ?n" by (rule numOffspring_range)
  have f: "0 \<le> freeSlots s"
    using assms(1) by (simp add: orgStore_inv_def pool_inv_def freeSlots_def)
  then have k: "min (nat ?n) (nat (freeSlots s)) = nat (freeSlots s)" using assms(5) by simp
  note g = reproduce_general [OF assms(1-4), unfolded k]
  define sh where "sh = ?share"
  have rk: "real (nat (freeSlots s)) = of_int (freeSlots s)" using f by simp
  have e: "oEnergy s i = (of_int ?n + 1) * sh" using n by (simp add: sh_def)
  have "totalEnergy (reproduce i s) = totalEnergy s - oEnergy s i + (of_int (freeSlots s) + 1) * sh"
    using g(6) rk by (simp add: sh_def)
  also have "\<dots> = totalEnergy s - (of_int ?n + 1) * sh + (of_int (freeSlots s) + 1) * sh"
    using e by simp
  also have "\<dots> = totalEnergy s - of_int (?n - freeSlots s) * sh"
    by (simp add: algebra_simps)
  finally have t: "totalEnergy (reproduce i s) = totalEnergy s - of_int (?n - freeSlots s) * ?share"
    by (simp add: sh_def)
  have a: "activeCount (reproduce i s) = activeCount s + freeSlots s" using g(1) f by simp
  show ?thesis using f a g(2,3) t by (intro conjI) assumption+
qed

text \<open>The statement at the organism of energy 700 and threshold 500 with one free slot:
  two children intended, one spawned, the parent at \<open>700 / 3\<close>, and one share of
  \<open>700 / 3\<close> lost.\<close>

theorem reproduction_without_capacity_witness:
  "orgStore_inv oneOrganism \<and> 0 < MAX_POP oneOrganism \<and> oActive oneOrganism 0 \<and>
   oEnergy oneOrganism 0 > gRepro oneOrganism 0 \<and>
   freeSlots oneOrganism < numOffspring (oEnergy oneOrganism 0) \<and>
   numOffspring (oEnergy oneOrganism 0) = 2 \<and> freeSlots oneOrganism = 1 \<and>
   activeCount (reproduce 0 oneOrganism) = 2 \<and> oEnergy (reproduce 0 oneOrganism) 0 = 700 / 3 \<and>
   totalEnergy oneOrganism = 700 \<and> totalEnergy (reproduce 0 oneOrganism) = 700 - 700 / 3"
proof -
  have h: "orgStore_inv oneOrganism" "0 < MAX_POP oneOrganism" "oActive oneOrganism 0"
    "oEnergy oneOrganism 0 > gRepro oneOrganism 0"
    "freeSlots oneOrganism < numOffspring (oEnergy oneOrganism 0)"
    by (simp_all add: oneOrganism_inv oneOrganism_fields numOffspring_examples freeSlots_def)
  show ?thesis
    using reproduction_without_capacity [OF h] h
    by (simp add: oneOrganism_fields numOffspring_examples oneOrganism_totalEnergy freeSlots_def)
qed

section \<open>Snapshot round trip (claim C1)\<close>

text \<open>Claim C1. Exporting a snapshot of any engine state and importing it into an engine
  of the same capacities raises nothing up to the redraw and gives a state that holds the
  same multiset of organism tuples, indeed the same tuples in slot order, the same list
  of food positions, the same zone list, configuration values and world flags, world
  size and speed. The capacities are constants of the class, so the importing engine,
  be it the exporting one in whatever state it then is or another, has the capacities
  of the exporting one. What a state holds is read off its slots by \<open>organismBag\<close>,
  \<open>organismList\<close> and \<open>foodList\<close>; the document is what the scans of \<open>exportState\<close>
  push.\<close>

theorem export_import_round_trip:
  assumes "MAX_POP t = MAX_POP s" "MAX_FOOD t = MAX_FOOD s"
  shows "fst (importState nan (exportState now s) t) = None \<and>
     organismBag (snd (importState nan (exportState now s) t)) = organismBag s \<and>
     organismList (snd (importState nan (exportState now s) t)) = organismList s \<and>
     foodList (snd (importState nan (exportState now s) t)) = foodList s \<and>
     zones (snd (importState nan (exportState now s) t)) = zones s \<and>
     config (snd (importState nan (exportState now s) t)) = config s \<and>
     predationActive (snd (importState nan (exportState now s) t)) = predationActive s \<and>
     activeZones (snd (importState nan (exportState now s) t)) = activeZones s \<and>
     debugMode (snd (importState nan (exportState now s) t)) = debugMode s \<and>
     worldSize (snd (importState nan (exportState now s) t)) = worldSize s \<and>
     simSpeed (snd (importState nan (exportState now s) t)) = simSpeed s"
proof -
  let ?d = "exportState now s"
  obtain w fl env en where d: "world ?d = Some w" "flags w = Some fl" "environment ?d = Some env"
    "entities ?d = Some en" "organisms en = Some (organismList s)" "food en = Some (foodList s)"
    "doc_config ?d = config s" "world_size w = worldSize s" "world_simSpeed w = simSpeed s"
    "predation fl = predationActive s" "zones_flag fl = activeZones s" "debug fl = debugMode s"
    "env_zones env = zones s"
    using exportState_sections [of now s] by blast
  note h = header_complete [OF d(1-3), of "resetStores t"]
  note c = importState_complete [OF h(1) d(4-6), where nan = nan]
  have to: "take (MAX_POP t) (organismList s) = organismList s"
    using organismList_length [of s] assms(1) by simp
  have tf: "take (MAX_FOOD t) (foodList s) = foodList s"
    using foodList_length [of s] assms(2) by simp
  have o: "organismList (snd (importState nan ?d t)) = organismList s"
    using c(2) by (simp add: to organismList_pad)
  have f: "foodList (snd (importState nan ?d t)) = foodList s"
    using c(3) by (simp add: tf foodList_pad)
  have v: "headerView (snd (importState nan ?d t)) = headerView s"
    unfolding c(4) h(2) by (simp add: d headerView_def)
  show ?thesis using c(1) o f v by (simp add: headerView_def organismBag_def)
qed

text \<open>The statement at the snapshot of the engine that holds three organisms, two of
  them with equal cells, in the slots 0, 2 and 3, and two food items in the slots 1 and
  2, imported into the empty engine of the same capacities.\<close>

theorem export_import_round_trip_witness:
  "MAX_POP vacant = MAX_POP colony \<and> MAX_FOOD vacant = MAX_FOOD colony \<and>
   organismList vacant = [] \<and> foodList vacant = [] \<and>
   oActive colony = (\<lambda>_. False)(0 := True, 2 := True, 3 := True) \<and>
   fst (importState 0 (exportState [] colony) vacant) = None \<and>
   organismBag (snd (importState 0 (exportState [] colony) vacant))
     = {#[100, 200, 3, 4, 700, 2, 10, 50, 500, 1, 0, 1, 350],
         [7, 8, 0, 0, 90, 2, 5, 50, 500, 1, 0, 1, 20],
         [7, 8, 0, 0, 90, 2, 5, 50, 500, 1, 0, 1, 20]#} \<and>
   organismList (snd (importState 0 (exportState [] colony) vacant))
     = [[100, 200, 3, 4, 700, 2, 10, 50, 500, 1, 0, 1, 350],
        [7, 8, 0, 0, 90, 2, 5, 50, 500, 1, 0, 1, 20],
        [7, 8, 0, 0, 90, 2, 5, 50, 500, 1, 0, 1, 20]] \<and>
   foodList (snd (importState 0 (exportState [] colony) vacant)) = [[5, 6], [7, 8]] \<and>
   zones (snd (importState 0 (exportState [] colony) vacant))
     = [\<lparr>pos = \<lparr>vec_x = 1, vec_y = 1\<rparr>, radius = 350, vel = \<lparr>vec_x = 0, vec_y = 0\<rparr>\<rparr>] \<and>
   config (snd (importState 0 (exportState [] colony) vacant)) = defaultConfig \<and>
   predationActive (snd (importState 0 (exportState [] colony) vacant)) = False \<and>
   worldSize (snd (importState 0 (exportState [] colony) vacant)) = 6000"
proof -
  have m: "MAX_POP vacant = MAX_POP colony" "MAX_FOOD vacant = MAX_FOOD colony"
    by (simp_all add: colony_fields)
  have b: "organismBag colony
             = {#[100, 200, 3, 4, 700, 2, 10, 50, 500, 1, 0, 1, 350],
                 [7, 8, 0, 0, 90, 2, 5, 50, 500, 1, 0, 1, 20],
                 [7, 8, 0, 0, 90, 2, 5, 50, 500, 1, 0, 1, 20]#}"
    by (simp add: organismBag_def colony_fields)
  show ?thesis
    using export_import_round_trip [OF m, where nan = 0 and now = "[]"] m
    by (simp add: colony_fields b)
qed

section \<open>Import of malformed documents (claim C2)\<close>





end
